theory Spec2Isabelle
  imports Complex_Main
begin

section \<open>Values of the notebook\<close>

text \<open>
  The notebook \<^verbatim>\<open>post.ipynb\<close> works on numpy arrays of 64-bit floating point numbers.
  A sample is either a number or NaN; rounding is not modelled (a number is a real), and
  the infinities are left out, the Sun's altitude in degrees being bounded. NaN is kept,
  since every comparison with it is false and arithmetic propagates it.
\<close>

datatype float64 = NaN | Num real

fun f_sub :: "float64 \<Rightarrow> float64 \<Rightarrow> float64" where
  "f_sub (Num a) (Num b) = Num (a - b)"
| "f_sub _ _ = NaN"

fun f_sq :: "float64 \<Rightarrow> float64" where
  "f_sq (Num a) = Num (a ^ 2)"
| "f_sq NaN = NaN"

fun f_less :: "float64 \<Rightarrow> float64 \<Rightarrow> bool" where
  "f_less (Num a) (Num b) = (a < b)"
| "f_less _ _ = False"

fun f_le :: "float64 \<Rightarrow> float64 \<Rightarrow> bool" where
  "f_le (Num a) (Num b) = (a \<le> b)"
| "f_le _ _ = False"

datatype error = IndexError | ValueError

section \<open>The library routines the notebook calls\<close>

subsection \<open>numpy\<close>

text \<open>
  \<^verbatim>\<open>a.take(indices, mode="wrap")\<close>: an index outside the array is reduced modulo the
  length of the array.
\<close>

definition take_wrap :: "'a list \<Rightarrow> int list \<Rightarrow> 'a list" where
  "take_wrap a indices = map (\<lambda>k. a ! nat (k mod int (length a))) indices"

text \<open>\<^verbatim>\<open>np.nonzero\<close> of a one-dimensional boolean array: the positions of True, ascending.\<close>

definition nonzero :: "bool list \<Rightarrow> nat list" where
  "nonzero bs = filter (\<lambda>k. bs ! k) [0..<length bs]"

text \<open>
  \<^verbatim>\<open>np.linspace(start, stop, num)\<close> with the default \<^verbatim>\<open>endpoint=True\<close>: \<open>num\<close>
  samples, the last one being \<open>stop\<close>; a negative \<open>num\<close> raises ValueError, and a single
  sample is \<open>start\<close>.
\<close>

definition linspace :: "real \<Rightarrow> real \<Rightarrow> int \<Rightarrow> error + real list" where
  "linspace start stop num =
     (if num < 0 then Inl ValueError
      else if num = 1 then Inr [start]
      else Inr (map (\<lambda>k. start + real k * ((stop - start) / real_of_int (num - 1)))
                  [0..<nat num]))"

text \<open>
  Indexing an integer array by a boolean mask of the same length, \<^verbatim>\<open>idx[mask]\<close>, and
  taking element 0 of an array, which raises IndexError on an empty one.
\<close>

definition bool_index :: "'a list \<Rightarrow> bool list \<Rightarrow> 'a list" where
  "bool_index xs sel = map fst (filter snd (zip xs sel))"

definition item0 :: "'a list \<Rightarrow> error + 'a" where
  "item0 xs = (case xs of [] \<Rightarrow> Inl IndexError | x # _ \<Rightarrow> Inr x)"

subsection \<open>scipy.signal.argrelmin\<close>

text \<open>
  \<^verbatim>\<open>argrelmin(data, axis=0, mode="wrap")\<close> is \<^verbatim>\<open>argrelextrema\<close> with the comparator
  \<^verbatim>\<open>np.less\<close> and order 1: the sample is compared with the sample one place after and
  one place before, both taken with \<^verbatim>\<open>mode="wrap"\<close>, and the positions where both
  comparisons hold are returned.
\<close>

definition boolrelextrema :: "(float64 \<Rightarrow> float64 \<Rightarrow> bool) \<Rightarrow> float64 list \<Rightarrow> bool list" where
  "boolrelextrema comparator data =
     (let locs = map int [0..<length data];
          main = take_wrap data locs;
          plus = take_wrap data (map (\<lambda>k. k + 1) locs);
          minus = take_wrap data (map (\<lambda>k. k - 1) locs)
      in map2 (\<and>) (map2 comparator main plus) (map2 comparator main minus))"

definition argrelmin :: "float64 list \<Rightarrow> nat list" where
  "argrelmin data = nonzero (boolrelextrema f_less data)"

subsection \<open>astropy times and pytz time zones\<close>

text \<open>
  An instant is a number of hours on the UTC time line, counted from a fixed epoch that
  falls on a midnight, so that day \<open>d\<close> begins at \<open>24 * d\<close>. The microsecond rounding
  of \<^verbatim>\<open>Time.datetime\<close> is not modelled.
\<close>

type_synonym instant = real

definition midnight :: "int \<Rightarrow> instant" where
  "midnight d = 24 * real_of_int d"

definition time_of_day :: "instant \<Rightarrow> real" where
  "time_of_day t = t - 24 * real_of_int \<lfloor>t / 24\<rfloor>"

text \<open>
  A pytz time zone: its identifier and its rule, the offset from UTC (in hours) of the
  civil time in force at a UTC instant, daylight saving included. An aware
  \<^verbatim>\<open>datetime\<close> is a wall-clock reading together with the offset and the zone it is
  expressed in.
\<close>

record tzinfo =
  zone :: string
  utcoffset :: "instant \<Rightarrow> real"

record datetime =
  wall :: real
  offset :: real
  tz :: tzinfo

definition utc :: tzinfo where
  "utc = \<lparr>zone = ''UTC'', utcoffset = (\<lambda>_. 0)\<rparr>"

text \<open>\<^verbatim>\<open>utc.localize(naive)\<close> attaches the zone UTC to a naive reading.\<close>

definition utc_localize :: "real \<Rightarrow> datetime" where
  "utc_localize naive = \<lparr>wall = naive, offset = 0, tz = utc\<rparr>"

text \<open>\<^verbatim>\<open>dt.astimezone(z)\<close>: the same instant, read on the clock of zone \<open>z\<close>.\<close>

definition astimezone :: "datetime \<Rightarrow> tzinfo \<Rightarrow> datetime" where
  "astimezone dt z =
     (let u = wall dt - offset dt
      in \<lparr>wall = u + utcoffset z u, offset = utcoffset z u, tz = z\<rparr>)"

text \<open>
  A location on Earth, and the ephemeris: \<^verbatim>\<open>coord.get_sun\<close> transformed to the
  \<^verbatim>\<open>AltAz\<close> frame of a location at an instant, read as \<^verbatim>\<open>.alt.degree\<close>. The
  ephemeris is a parameter of the model.
\<close>

record EarthLocation =
  lon :: float64
  lat :: float64

type_synonym ephemeris = "EarthLocation \<Rightarrow> instant \<Rightarrow> float64"

section \<open>The notebook\<close>

subsection \<open>The county table and the tables built from it\<close>

record county_row =
  GEOID :: int
  INTPTLAT :: float64
  INTPTLONG :: float64

text \<open>
  The global variables of the notebook that the cells below the imports define:
  \<^verbatim>\<open>county\<close>, the table read from the census file; \<^verbatim>\<open>tzs\<close>, the array of zones,
  which the notebook fills with one zone per row of \<^verbatim>\<open>county\<close>; \<^verbatim>\<open>county_locs\<close>, the
  locations of the rows; and \<^verbatim>\<open>day\<close>. Of these \<^verbatim>\<open>sunset_time\<close> reads \<^verbatim>\<open>tzs\<close>.
\<close>

record notebook =
  county :: "county_row list"
  tzs :: "tzinfo list"
  county_locs :: "EarthLocation list"
  day :: instant

subsection \<open>sunset_time\<close>

definition time_grid :: "instant \<Rightarrow> int \<Rightarrow> error + instant list" where
  "time_grid time n_time =
     (case linspace 0 24 n_time of
        Inl e \<Rightarrow> Inl e
      | Inr hours \<Rightarrow> Inr (map (\<lambda>h. time + h) hours))"

text \<open>
  \<^verbatim>\<open>sun_altaz.alt.degree\<close>: one row per instant of the grid, one column per location.
  \<^verbatim>\<open>.T\<close> of such an array with \<open>n\<close> columns lists its columns.
\<close>

definition sun_alt :: "ephemeris \<Rightarrow> EarthLocation list \<Rightarrow> instant list \<Rightarrow> float64 list list" where
  "sun_alt eph locs grid = map (\<lambda>t. map (\<lambda>l. eph l t) locs) grid"

definition T :: "nat \<Rightarrow> 'a list list \<Rightarrow> 'a list list" where
  "T n a = map (\<lambda>i. map (\<lambda>row. row ! i) a) [0..<n]"

text \<open>
  \<^verbatim>\<open>min_idx\<close>: for each location, the minima of the squared altitude. The rows may
  differ in length; \<^verbatim>\<open>np.array\<close> then holds them as an array of arrays (numpy before
  1.24), and the loop below reads them one by one either way.
\<close>

definition min_idx_of :: "nat \<Rightarrow> float64 list list \<Rightarrow> nat list list" where
  "min_idx_of n alt = map (\<lambda>a. argrelmin (map f_sq a)) (T n alt)"

text \<open>
  The altitude difference across a candidate \<open>j\<close> at location \<open>i\<close>:
  \<^verbatim>\<open>alt[min(j + 1, len(alt) - 1), i] - alt[max(j - 1, 0), i]\<close>.
\<close>

definition slope :: "float64 list list \<Rightarrow> nat \<Rightarrow> nat \<Rightarrow> float64" where
  "slope alt i j =
     f_sub (alt ! nat (min (int j + 1) (int (length alt) - 1)) ! i)
           (alt ! nat (max (int j - 1) 0) ! i)"

text \<open>The argument of \<^verbatim>\<open>sunset_idx.append\<close>: \<^verbatim>\<open>idx[np.array([...]) < 0][0]\<close>.\<close>

definition first_decreasing :: "float64 list list \<Rightarrow> nat \<Rightarrow> nat list \<Rightarrow> error + nat" where
  "first_decreasing alt i idx =
     item0 (bool_index idx (map (\<lambda>d. f_less d (Num 0)) (map (\<lambda>j. slope alt i j) idx)))"

text \<open>
  The loop over \<^verbatim>\<open>enumerate(min_idx)\<close>, on the state \<open>(sunset_idx, good_i)\<close>. The only
  error the argument of the first \<^verbatim>\<open>append\<close> can raise is the IndexError of element 0;
  it is caught, and the loop goes on with both lists as they were.
\<close>

fun sunset_loop ::
  "float64 list list \<Rightarrow> (nat \<times> nat list) list \<Rightarrow> nat list \<times> nat list \<Rightarrow> nat list \<times> nat list"
where
  "sunset_loop alt [] st = st"
| "sunset_loop alt ((i, idx) # rest) (sunset_idx, good_i) =
     (case first_decreasing alt i idx of
        Inr j \<Rightarrow> sunset_loop alt rest (sunset_idx @ [j], good_i @ [i])
      | Inl err \<Rightarrow> sunset_loop alt rest (sunset_idx, good_i))"

text \<open>
  \<^verbatim>\<open>sun_altaz.obstime.datetime\<close>: the grid, broadcast to the shape of the altitudes.
  The comprehension over \<^verbatim>\<open>zip(good_i, sunset_idx)\<close> reads the global \<^verbatim>\<open>tzs[i]\<close>,
  which raises IndexError outside the table; nothing catches it there.
\<close>

definition obstime_datetime :: "nat \<Rightarrow> instant list \<Rightarrow> instant list list" where
  "obstime_datetime n grid = map (\<lambda>t. replicate n t) grid"

fun sunsets_of ::
  "notebook \<Rightarrow> instant list list \<Rightarrow> (nat \<times> nat) list \<Rightarrow> error + datetime list"
where
  "sunsets_of nb sun_time [] = Inr []"
| "sunsets_of nb sun_time ((i, j) # rest) =
     (if i < length (tzs nb)
      then (case sunsets_of nb sun_time rest of
              Inl e \<Rightarrow> Inl e
            | Inr ds \<Rightarrow> Inr (astimezone (utc_localize (sun_time ! j ! i)) (tzs nb ! i) # ds))
      else Inl IndexError)"

definition sunset_time ::
  "ephemeris \<Rightarrow> notebook \<Rightarrow> EarthLocation list \<Rightarrow> instant \<Rightarrow> int
     \<Rightarrow> error + (nat list \<times> datetime list)"
where
  "sunset_time eph nb locs time n_time =
     (case time_grid time n_time of
        Inl e \<Rightarrow> Inl e
      | Inr grid \<Rightarrow>
          (let alt = sun_alt eph locs grid;
               min_idx = min_idx_of (length locs) alt;
               (sunset_idx, good_i) = sunset_loop alt (enumerate 0 min_idx) ([], []);
               sun_time = obstime_datetime (length locs) grid
           in case sunsets_of nb sun_time (zip good_i sunset_idx) of
                Inl e \<Rightarrow> Inl e
              | Inr sunsets \<Rightarrow> Inr (good_i, sunsets)))"

subsection \<open>sunset_time, statement by statement, on the objects it can reach\<close>

text \<open>
  The objects a call can reach: the globals of the notebook, the two objects the caller
  passes by reference (\<^verbatim>\<open>locs\<close> and \<^verbatim>\<open>time\<close>; \<^verbatim>\<open>n_time\<close> is an integer), and the two
  lists the call creates and appends to. Every other local of the function is bound once
  to a value that no later statement changes.
\<close>

record call_state =
  globals :: notebook
  locs_arg :: "EarthLocation list"
  time_arg :: instant
  sunset_idx_list :: "nat list"
  good_i_list :: "nat list"

text \<open>
  The loop again, now on the whole state: \<^verbatim>\<open>sunset_idx.append(...)\<close>, then
  \<^verbatim>\<open>good_i.append(i)\<close>, or neither when the IndexError is caught.
\<close>

fun loop_exec ::
  "float64 list list \<Rightarrow> (nat \<times> nat list) list \<Rightarrow> call_state \<Rightarrow> call_state"
where
  "loop_exec alt [] st = st"
| "loop_exec alt ((i, idx) # rest) st =
     (case first_decreasing alt i idx of
        Inr j \<Rightarrow>
          loop_exec alt rest
            ((st\<lparr>sunset_idx_list := sunset_idx_list st @ [j]\<rparr>)
               \<lparr>good_i_list := good_i_list st @ [i]\<rparr>)
      | Inl err \<Rightarrow> loop_exec alt rest st)"

text \<open>
  The body of the function: the grid from \<^verbatim>\<open>time\<close>, the altitudes from \<^verbatim>\<open>locs\<close>,
  \<^verbatim>\<open>sunset_idx = []\<close>, \<^verbatim>\<open>good_i = []\<close>, the loop, and the comprehension that reads the
  global \<^verbatim>\<open>tzs\<close>. It returns the result, or the error raised, and the state it leaves.
\<close>

definition sunset_time_exec ::
  "ephemeris \<Rightarrow> int \<Rightarrow> call_state \<Rightarrow> (error + (nat list \<times> datetime list)) \<times> call_state"
where
  "sunset_time_exec eph n_time st =
     (case time_grid (time_arg st) n_time of
        Inl e \<Rightarrow> (Inl e, st)
      | Inr grid \<Rightarrow>
          (let alt = sun_alt eph (locs_arg st) grid;
               min_idx = min_idx_of (length (locs_arg st)) alt;
               st1 = st\<lparr>sunset_idx_list := []\<rparr>;
               st2 = st1\<lparr>good_i_list := []\<rparr>;
               st3 = loop_exec alt (enumerate 0 min_idx) st2;
               sun_time = obstime_datetime (length (locs_arg st3)) grid
           in case sunsets_of (globals st3) sun_time
                     (zip (good_i_list st3) (sunset_idx_list st3)) of
                Inl e \<Rightarrow> (Inl e, st3)
              | Inr sunsets \<Rightarrow> (Inr (good_i_list st3, sunsets), st3)))"

text \<open>
  A call of \<^verbatim>\<open>sunset_time\<close> in a cell of the notebook: the body runs on the globals, the
  arguments and two lists that do not exist yet, and the cell is left with the result and
  with the globals as the body left them.
\<close>

definition run_sunset_time ::
  "ephemeris \<Rightarrow> EarthLocation list \<Rightarrow> instant \<Rightarrow> int \<Rightarrow> notebook
     \<Rightarrow> (error + (nat list \<times> datetime list)) \<times> notebook"
where
  "run_sunset_time eph locs time n_time nb =
     (let (r, st) =
            sunset_time_exec eph n_time
              \<lparr>globals = nb, locs_arg = locs, time_arg = time,
               sunset_idx_list = [], good_i_list = []\<rparr>
      in (r, globals st))"

subsection \<open>Notions used to state the properties\<close>

text \<open>
  For location \<open>i\<close> of a call: its candidate minima, the grid index the loop appends for
  it (or the IndexError it skips on), the locations that get a result, and the timestamp
  of a location that does.
\<close>

definition candidates :: "ephemeris \<Rightarrow> EarthLocation list \<Rightarrow> instant list \<Rightarrow> nat \<Rightarrow> nat list" where
  "candidates eph locs grid i = min_idx_of (length locs) (sun_alt eph locs grid) ! i"

definition winner :: "ephemeris \<Rightarrow> EarthLocation list \<Rightarrow> instant list \<Rightarrow> nat \<Rightarrow> error + nat" where
  "winner eph locs grid i =
     first_decreasing (sun_alt eph locs grid) i (candidates eph locs grid i)"

definition good_positions :: "ephemeris \<Rightarrow> EarthLocation list \<Rightarrow> instant list \<Rightarrow> nat list" where
  "good_positions eph locs grid =
     filter (\<lambda>i. \<not> isl (winner eph locs grid i)) [0..<length locs]"

definition local_sunset ::
  "ephemeris \<Rightarrow> notebook \<Rightarrow> EarthLocation list \<Rightarrow> instant list \<Rightarrow> nat \<Rightarrow> datetime"
where
  "local_sunset eph nb locs grid i =
     astimezone (utc_localize (grid ! projr (winner eph locs grid i))) (tzs nb ! i)"

text \<open>
  The slope test in the words of the specification, on the altitude column of one
  location: \<open>altitude[min(j+1, N-1)] - altitude[max(j-1, 0)] < 0\<close>.
\<close>

definition clamped_slope_negative :: "float64 list \<Rightarrow> nat \<Rightarrow> bool" where
  "clamped_slope_negative altitude j =
     f_less (f_sub (altitude ! min (j + 1) (length altitude - 1)) (altitude ! max (j - 1) 0))
       (Num 0)"

text \<open>
  A circular local minimum in the words of the specification, non-strict:
  \<open>value[i] <= value[(i-1+N) mod N]\<close> and \<open>value[i] <= value[(i+1) mod N]\<close>; and
  the strict variant.
\<close>

definition circular_local_min :: "float64 list \<Rightarrow> nat \<Rightarrow> bool" where
  "circular_local_min val i =
     (f_le (val ! i) (val ! ((i + length val - 1) mod length val)) \<and>
      f_le (val ! i) (val ! ((i + 1) mod length val)))"

definition circular_strict_min :: "float64 list \<Rightarrow> nat \<Rightarrow> bool" where
  "circular_strict_min val i =
     (f_less (val ! i) (val ! ((i + length val - 1) mod length val)) \<and>
      f_less (val ! i) (val ! ((i + 1) mod length val)))"

subsection \<open>Sample data\<close>

text \<open>
  A toy ephemeris that repeats every day: the Sun stays 20 degrees below the horizon north
  of latitude 80, and elsewhere its altitude steps through 3, 1, 2 and -1 degrees at
  hours 0, 6, 12 and 18, which gives two minima of the square on a grid of five instants,
  the first with a negative slope and the second with a positive one; NaN coordinates give
  NaN. Two zones, one of them with a daylight-saving rule (hours are counted from the first
  midnight of a year), a few locations, and the zone each location lies in (Eastern time
  west of 30 degrees west).
\<close>

definition toy_eph :: ephemeris where
  "toy_eph l t =
     (case lat l of
        NaN \<Rightarrow> NaN
      | Num y \<Rightarrow>
          (case lon l of
             NaN \<Rightarrow> NaN
           | Num x \<Rightarrow>
               if 80 < y then Num (- 20)
               else if time_of_day t < 3 then Num 3
               else if time_of_day t < 9 then Num 1
               else if time_of_day t < 15 then Num 2
               else if time_of_day t < 21 then Num (- 1)
               else Num (- 4)))"

definition eastern :: tzinfo where
  "eastern = \<lparr>zone = ''America/New_York'',
              utcoffset = (\<lambda>u. if 1680 \<le> u \<and> u < 7400 then - 4 else - 5)\<rparr>"

definition princeton :: EarthLocation where
  "princeton = \<lparr>lon = Num (- 75), lat = Num 40\<rparr>"

definition greenwich :: EarthLocation where
  "greenwich = \<lparr>lon = Num 0, lat = Num 51\<rparr>"

definition north_pole :: EarthLocation where
  "north_pole = \<lparr>lon = Num 0, lat = Num 90\<rparr>"

definition nowhere :: EarthLocation where
  "nowhere = \<lparr>lon = NaN, lat = NaN\<rparr>"

definition toy_zone_of :: "EarthLocation \<Rightarrow> tzinfo" where
  "toy_zone_of l = (if f_less (lon l) (Num (- 30)) then eastern else utc)"

definition toy_nb :: "tzinfo list \<Rightarrow> notebook" where
  "toy_nb table = \<lparr>county = [], tzs = table, county_locs = [], day = 0\<rparr>"

section \<open>Auxiliary facts\<close>

subsection \<open>The minima search\<close>

lemma length_boolrelextrema: "length (boolrelextrema c data) = length data"
  by (simp add: boolrelextrema_def take_wrap_def Let_def)

lemma wrap_plus: "k < n \<Longrightarrow> nat ((int k + 1) mod int n) = (k + 1) mod n"
proof -
  have "int k + 1 = int (k + 1)" by simp
  then show ?thesis by (simp only: zmod_int[symmetric] nat_int)
qed

lemma wrap_minus: "k < n \<Longrightarrow> nat ((int k - 1) mod int n) = (k + n - 1) mod n"
proof -
  assume "k < n"
  have "(int k - 1) mod int n = (int k - 1 + int n) mod int n" by simp
  also have "int k - 1 + int n = int (k + n - 1)" using \<open>k < n\<close> by linarith
  finally show ?thesis by (simp only: zmod_int[symmetric] nat_int)
qed

lemma boolrelextrema_nth:
  assumes "k < length data"
  shows "boolrelextrema c data ! k =
     (c (data ! k) (data ! ((k + 1) mod length data)) \<and>
      c (data ! k) (data ! ((k + length data - 1) mod length data)))"
  using assms by (simp add: boolrelextrema_def take_wrap_def Let_def wrap_plus wrap_minus)

lemma argrelmin_filter:
  "argrelmin data = filter (circular_strict_min data) [0..<length data]"
  unfolding argrelmin_def nonzero_def length_boolrelextrema
  by (rule filter_cong) (auto simp: boolrelextrema_nth circular_strict_min_def)

lemma argrelmin_bound: "k \<in> set (argrelmin data) \<Longrightarrow> k < length data"
  by (simp add: argrelmin_filter)

lemma argrelmin_sorted: "sorted_wrt (<) (argrelmin data)"
  by (simp add: argrelmin_filter sorted_wrt_filter)

lemma min_idx_of_nth:
  "i < n \<Longrightarrow> min_idx_of n alt ! i = argrelmin (map f_sq (map (\<lambda>row. row ! i) alt))"
  by (simp add: min_idx_of_def T_def)

lemma length_min_idx_of: "length (min_idx_of n alt) = n"
  by (simp add: min_idx_of_def T_def)

subsection \<open>The slope test and the choice of the first candidate\<close>

lemma bool_index_map: "bool_index xs (map P xs) = filter P xs"
  by (induction xs) (simp_all add: bool_index_def)

lemma first_decreasing_filter:
  "first_decreasing alt i idx = item0 (filter (\<lambda>j. f_less (slope alt i j) (Num 0)) idx)"
  by (simp add: first_decreasing_def bool_index_map comp_def)

lemma item0_Inl: "item0 xs = Inl e \<longleftrightarrow> xs = [] \<and> e = IndexError"
  by (cases xs) (auto simp: item0_def)

lemma item0_filter_sorted:
  fixes xs :: "nat list"
  assumes "sorted_wrt (<) xs"
  shows "item0 (filter P xs) = Inr j \<longleftrightarrow>
     j \<in> set xs \<and> P j \<and> (\<forall>k\<in>set xs. P k \<longrightarrow> j \<le> k)"
  using assms
proof (induction xs)
  case Nil
  show ?case by (simp add: item0_def)
next
  case (Cons x xs)
  show ?case
  proof (cases "P x")
    case True
    have "x \<le> k" if "k \<in> set xs" for k
      using Cons.prems that by (auto intro: less_imp_le)
    moreover have "j = x" if "j \<in> set xs" and "j \<le> x" for j
      using Cons.prems that by auto
    ultimately show ?thesis using True by (auto simp: item0_def)
  next
    case False
    then show ?thesis using Cons by (auto simp: item0_def)
  qed
qed

lemma slope_clamped:
  assumes "j < length alt"
  shows "f_less (slope alt i j) (Num 0) \<longleftrightarrow> clamped_slope_negative (map (\<lambda>row. row ! i) alt) j"
proof -
  have hi: "nat (min (int j + 1) (int (length alt) - 1)) = min (j + 1) (length alt - 1)"
    using assms by (cases "j + 1 < length alt") (simp_all add: min_def, linarith+)
  have lo: "nat (max (int j - 1) 0) = max (j - 1) 0"
    by (cases j) (simp_all add: max_def)
  have "min (j + 1) (length alt - 1) < length alt" using assms by simp
  moreover have "max (j - 1) 0 < length alt" using assms by simp
  ultimately show ?thesis
    unfolding slope_def clamped_slope_negative_def hi lo by simp
qed

subsection \<open>The loop and the conversion\<close>

lemma sunset_loop_eq:
  "sunset_loop alt ps (s, g) =
     (s @ map (\<lambda>(i, idx). projr (first_decreasing alt i idx))
            (filter (\<lambda>(i, idx). \<not> isl (first_decreasing alt i idx)) ps),
      g @ map fst (filter (\<lambda>(i, idx). \<not> isl (first_decreasing alt i idx)) ps))"
proof (induction ps arbitrary: s g)
  case Nil
  show ?case by simp
next
  case (Cons p ps)
  obtain i idx where p: "p = (i, idx)" by (cases p)
  show ?case
  proof (cases "first_decreasing alt i idx")
    case (Inl e)
    then show ?thesis using Cons.IH[of s g] by (simp add: p)
  next
    case (Inr j)
    then show ?thesis using Cons.IH[of "s @ [j]" "g @ [i]"] by (simp add: p)
  qed
qed

lemma filter_enumerate:
  "filter (\<lambda>(i, x). P i x) (enumerate 0 xs) =
     map (\<lambda>i. (i, xs ! i)) (filter (\<lambda>i. P i (xs ! i)) [0..<length xs])"
proof -
  have "enumerate 0 xs = map (\<lambda>i. (i, xs ! i)) [0..<length xs]"
    by (rule nth_equalityI) (simp_all add: nth_enumerate_eq)
  then show ?thesis by (simp add: filter_map comp_def)
qed

lemma sunset_loop_sun_alt:
  "sunset_loop (sun_alt eph locs grid)
       (enumerate 0 (min_idx_of (length locs) (sun_alt eph locs grid))) ([], []) =
     (map (\<lambda>i. projr (winner eph locs grid i)) (good_positions eph locs grid),
      good_positions eph locs grid)"
  unfolding sunset_loop_eq
  by (simp add: filter_enumerate[of "\<lambda>i idx. \<not> isl (first_decreasing (sun_alt eph locs grid) i idx)"]
        length_min_idx_of good_positions_def winner_def candidates_def comp_def)

lemma sunsets_of_eq:
  "sunsets_of nb st ps =
     (if \<forall>p\<in>set ps. fst p < length (tzs nb)
      then Inr (map (\<lambda>(i, j). astimezone (utc_localize (st ! j ! i)) (tzs nb ! i)) ps)
      else Inl IndexError)"
proof (induction ps)
  case Nil
  show ?case by simp
next
  case (Cons p ps)
  obtain i j where p: "p = (i, j)" by (cases p)
  show ?case using Cons.IH by (simp add: p)
qed

lemma length_sun_alt: "length (sun_alt eph locs grid) = length grid"
  by (simp add: sun_alt_def)

lemma sun_alt_column:
  "i < length locs \<Longrightarrow> map (\<lambda>row. row ! i) (sun_alt eph locs grid) = map (eph (locs ! i)) grid"
  by (simp add: sun_alt_def)

lemma candidates_eq:
  "i < length locs \<Longrightarrow>
     candidates eph locs grid i = argrelmin (map f_sq (map (eph (locs ! i)) grid))"
  by (simp add: candidates_def min_idx_of_nth sun_alt_column)

lemma candidates_bound:
  "i < length locs \<Longrightarrow> j \<in> set (candidates eph locs grid i) \<Longrightarrow> j < length grid"
  by (auto simp: candidates_eq dest: argrelmin_bound)

lemma slope_candidate:
  assumes "i < length locs" and "k \<in> set (candidates eph locs grid i)"
  shows "f_less (slope (sun_alt eph locs grid) i k) (Num 0) \<longleftrightarrow>
     clamped_slope_negative (map (eph (locs ! i)) grid) k"
proof -
  have "k < length (sun_alt eph locs grid)"
    using assms by (simp add: length_sun_alt candidates_bound)
  then show ?thesis using assms(1) by (simp add: slope_clamped sun_alt_column)
qed

lemma winner_Inr_iff:
  assumes "i < length locs"
  shows "winner eph locs grid i = Inr j \<longleftrightarrow>
     j \<in> set (candidates eph locs grid i) \<and>
     clamped_slope_negative (map (eph (locs ! i)) grid) j \<and>
     (\<forall>k\<in>set (candidates eph locs grid i).
        clamped_slope_negative (map (eph (locs ! i)) grid) k \<longrightarrow> j \<le> k)"
proof -
  let ?alt = "sun_alt eph locs grid"
  let ?idx = "candidates eph locs grid i"
  have srt: "sorted_wrt (<) ?idx" using assms by (simp add: candidates_eq argrelmin_sorted)
  have "winner eph locs grid i = Inr j \<longleftrightarrow>
      j \<in> set ?idx \<and> f_less (slope ?alt i j) (Num 0) \<and>
      (\<forall>k\<in>set ?idx. f_less (slope ?alt i k) (Num 0) \<longrightarrow> j \<le> k)"
    unfolding winner_def first_decreasing_filter by (rule item0_filter_sorted[OF srt])
  then show ?thesis using slope_candidate[OF assms, of _ eph grid] by auto
qed

lemma winner_Inl_iff:
  assumes "i < length locs"
  shows "winner eph locs grid i = Inl e \<longleftrightarrow>
     e = IndexError \<and>
     \<not> (\<exists>j\<in>set (candidates eph locs grid i).
          clamped_slope_negative (map (eph (locs ! i)) grid) j)"
proof -
  have "winner eph locs grid i = Inl e \<longleftrightarrow>
      e = IndexError \<and>
      (\<forall>j\<in>set (candidates eph locs grid i). \<not> f_less (slope (sun_alt eph locs grid) i j) (Num 0))"
    unfolding winner_def first_decreasing_filter item0_Inl filter_empty_conv by auto
  then show ?thesis using slope_candidate[OF assms, of _ eph grid] by auto
qed

lemma winner_bound:
  assumes "i < length locs" and "winner eph locs grid i = Inr j"
  shows "j < length grid"
  using assms candidates_bound winner_Inr_iff by blast

lemma winner_column:
  assumes "i < length locs"
  shows "winner eph locs grid i =
     item0 (filter (clamped_slope_negative (map (eph (locs ! i)) grid))
              (argrelmin (map f_sq (map (eph (locs ! i)) grid))))"
proof -
  have "filter (\<lambda>j. f_less (slope (sun_alt eph locs grid) i j) (Num 0)) (candidates eph locs grid i)
      = filter (clamped_slope_negative (map (eph (locs ! i)) grid)) (candidates eph locs grid i)"
    by (rule filter_cong[OF refl]) (rule slope_candidate[OF assms])
  then show ?thesis
    by (simp add: winner_def first_decreasing_filter candidates_eq[OF assms])
qed

lemma winner_alone:
  "i < length locs \<Longrightarrow> winner eph locs grid i = winner eph [locs ! i] grid 0"
  by (simp add: winner_column)

lemma good_positions_iff:
  "i \<in> set (good_positions eph locs grid) \<longleftrightarrow>
     i < length locs \<and> (\<exists>j. winner eph locs grid i = Inr j)"
  by (cases "winner eph locs grid i") (auto simp: good_positions_def)

lemma good_positions_sorted: "sorted_wrt (<) (good_positions eph locs grid)"
  by (simp add: good_positions_def sorted_wrt_filter)

lemma obstime_nth:
  "j < length grid \<Longrightarrow> i < n \<Longrightarrow> obstime_datetime n grid ! j ! i = grid ! j"
  by (simp add: obstime_datetime_def)

lemma map_zip_self: "map (\<lambda>(i, j). F i j) (zip xs (map f xs)) = map (\<lambda>i. F i (f i)) xs"
  by (induction xs) simp_all

lemma set_zip_self: "(\<forall>p\<in>set (zip xs (map f xs)). P (fst p)) \<longleftrightarrow> (\<forall>x\<in>set xs. P x)"
  by (induction xs) auto

subsection \<open>The result of a call\<close>

lemma sunset_time_negative:
  "n_time < 0 \<Longrightarrow> sunset_time eph nb locs time n_time = Inl ValueError"
  by (simp add: sunset_time_def time_grid_def linspace_def)

lemma sunset_time_eq:
  assumes "time_grid time n_time = Inr grid"
  shows "sunset_time eph nb locs time n_time =
     (if \<forall>i\<in>set (good_positions eph locs grid). i < length (tzs nb)
      then Inr (good_positions eph locs grid,
                map (local_sunset eph nb locs grid) (good_positions eph locs grid))
      else Inl IndexError)"
proof -
  let ?good = "good_positions eph locs grid"
  let ?w = "\<lambda>i. projr (winner eph locs grid i)"
  have conv: "map (\<lambda>i. astimezone (utc_localize (obstime_datetime (length locs) grid ! ?w i ! i)) (tzs nb ! i)) ?good
      = map (local_sunset eph nb locs grid) ?good"
  proof (rule map_cong[OF refl])
    fix i assume i: "i \<in> set ?good"
    then obtain j where j: "winner eph locs grid i = Inr j" and il: "i < length locs"
      using good_positions_iff by blast
    from il j have "j < length grid" by (rule winner_bound)
    then show "astimezone (utc_localize (obstime_datetime (length locs) grid ! ?w i ! i)) (tzs nb ! i)
        = local_sunset eph nb locs grid i"
      using il by (simp add: local_sunset_def j obstime_nth)
  qed
  have inside: "(\<forall>p\<in>set (zip ?good (map ?w ?good)). fst p < length (tzs nb))
      \<longleftrightarrow> (\<forall>i\<in>set ?good. i < length (tzs nb))"
    by (rule set_zip_self[of ?good ?w "\<lambda>i. i < length (tzs nb)"])
  show ?thesis
    unfolding sunset_time_def
    by (simp add: assms sunset_loop_sun_alt sunsets_of_eq map_zip_self inside conv
          del: sunset_loop.simps sunsets_of.simps)
qed

subsection \<open>The time grid\<close>

lemma time_grid_Inr: "0 \<le> n \<Longrightarrow> \<exists>grid. time_grid t n = Inr grid \<and> length grid = nat n"
  by (auto simp: time_grid_def linspace_def)

lemma time_grid_two:
  assumes "2 \<le> n"
  shows "time_grid t n = Inr (map (\<lambda>k. t + real k * (24 / real_of_int (n - 1))) [0..<nat n])"
  using assms by (simp add: time_grid_def linspace_def comp_def)


subsection \<open>The sample data\<close>

lemma toy_eph_princeton:
  "toy_eph princeton t =
     (if time_of_day t < 3 then Num 3 else if time_of_day t < 9 then Num 1
      else if time_of_day t < 15 then Num 2 else if time_of_day t < 21 then Num (- 1)
      else Num (- 4))"
  by (simp add: toy_eph_def princeton_def)

lemma toy_eph_greenwich: "toy_eph greenwich t = toy_eph princeton t"
  by (simp add: toy_eph_def princeton_def greenwich_def)

lemma toy_eph_north_pole: "toy_eph north_pole t = Num (- 20)"
  by (simp add: toy_eph_def north_pole_def)

lemma toy_eph_nowhere: "toy_eph nowhere t = NaN"
  by (simp add: toy_eph_def nowhere_def)

lemma time_grid_5: "time_grid 4128 5 = Inr [4128, 4134, 4140, 4146, 4152]"
  by (simp add: time_grid_def linspace_def upt_rec)

lemma toy_column:
  "map (toy_eph princeton) [4128, 4134, 4140, 4146, 4152] = [Num 3, Num 1, Num 2, Num (- 1), Num 3]"
  by (simp add: toy_eph_princeton time_of_day_def)

lemma candidates_princeton:
  "candidates toy_eph [princeton] [4128, 4134, 4140, 4146, 4152] 0 = [1, 3]"
proof -
  have "candidates toy_eph [princeton] [4128, 4134, 4140, 4146, 4152] 0 =
      argrelmin (map f_sq [Num 3, Num 1, Num 2, Num (- 1), Num 3])"
    by (simp only: candidates_eq length_Cons list.size nth_Cons_0 toy_column lessI)
  also have "\<dots> = [1, 3]"
    by (simp add: argrelmin_filter circular_strict_min_def upt_rec)
  finally show ?thesis .
qed

lemma winner_princeton: "winner toy_eph [princeton] [4128, 4134, 4140, 4146, 4152] 0 = Inr 1"
proof -
  have "winner toy_eph [princeton] [4128, 4134, 4140, 4146, 4152] 0 =
      item0 (filter (clamped_slope_negative [Num 3, Num 1, Num 2, Num (- 1), Num 3])
               (argrelmin (map f_sq [Num 3, Num 1, Num 2, Num (- 1), Num 3])))"
    by (simp only: winner_column length_Cons list.size nth_Cons_0 toy_column lessI)
  also have "\<dots> = Inr 1"
    by (simp add: argrelmin_filter circular_strict_min_def clamped_slope_negative_def
          item0_def upt_rec)
  finally show ?thesis .
qed

lemma winner_greenwich: "winner toy_eph [greenwich] [4128, 4134, 4140, 4146, 4152] 0 = Inr 1"
  using winner_princeton by (simp add: winner_column toy_eph_greenwich)

lemma winner_north_pole:
  "winner toy_eph [north_pole] [4128, 4134, 4140, 4146, 4152] 0 = Inl IndexError"
  by (simp add: winner_column toy_eph_north_pole argrelmin_filter circular_strict_min_def
        item0_def upt_rec)

lemma winner_nowhere:
  "winner toy_eph [nowhere] [4128, 4134, 4140, 4146, 4152] 0 = Inl IndexError"
  by (simp add: winner_column toy_eph_nowhere argrelmin_filter circular_strict_min_def
        item0_def upt_rec)

lemmas toy_winners = winner_princeton winner_greenwich winner_north_pole winner_nowhere

lemma good_positions_toy:
  "good_positions toy_eph [princeton, greenwich] [4128, 4134, 4140, 4146, 4152] = [0, 1]"
  "good_positions toy_eph [north_pole] [4128, 4134, 4140, 4146, 4152] = []"
  "good_positions toy_eph [princeton, nowhere, greenwich] [4128, 4134, 4140, 4146, 4152] = [0, 2]"
  by (simp_all add: good_positions_def upt_rec winner_alone[of _ "_ # _ # _"] toy_winners)

subsection \<open>Further facts about a call\<close>

lemma argrelmin_all_NaN:
  assumes "\<forall>x\<in>set data. x = NaN"
  shows "argrelmin data = []"
proof -
  have "data ! k = NaN" if "k < length data" for k
    using assms that by simp
  then show ?thesis
    by (simp add: argrelmin_filter filter_empty_conv circular_strict_min_def)
qed

lemma sunset_time_Inr:
  assumes "time_grid time n_time = Inr grid"
      and "sunset_time eph nb locs time n_time = Inr (good_i, sunsets)"
  shows "good_i = good_positions eph locs grid"
    and "sunsets = map (local_sunset eph nb locs grid) good_i"
    and "\<forall>i\<in>set good_i. i < length (tzs nb)"
  using assms(2) unfolding sunset_time_eq[OF assms(1)] by (auto split: if_splits)

lemma sunset_time_cases:
  assumes "time_grid time n_time = Inr grid"
  shows "sunset_time eph nb locs time n_time =
            Inr (good_positions eph locs grid,
                 map (local_sunset eph nb locs grid) (good_positions eph locs grid)) \<and>
            (\<forall>q\<in>set (good_positions eph locs grid). q < length (tzs nb)) \<or>
         sunset_time eph nb locs time n_time = Inl IndexError \<and>
            (\<exists>q\<in>set (good_positions eph locs grid). length (tzs nb) \<le> q)"
  unfolding sunset_time_eq[OF assms] by (auto simp: not_less)

lemma sunset_time_tzs:
  assumes "tzs nb' = tzs nb"
  shows "sunset_time eph nb' locs time n_time = sunset_time eph nb locs time n_time"
proof -
  have "sunsets_of nb' st ps = sunsets_of nb st ps" for st ps
    using assms by (simp add: sunsets_of_eq)
  then show ?thesis unfolding sunset_time_def by (simp only:)
qed

lemma astimezone_fields:
  "tz (astimezone (utc_localize t) z) = z"
  "offset (astimezone (utc_localize t) z) = utcoffset z t"
  "wall (astimezone (utc_localize t) z) = t + utcoffset z t"
  by (simp_all add: astimezone_def utc_localize_def)

lemma toy_eph_NaN: "lon l = NaN \<or> lat l = NaN \<Longrightarrow> toy_eph l t = NaN"
  by (auto simp: toy_eph_def split: float64.splits)

lemma sunset_time_toy:
  "sunset_time toy_eph (toy_nb [eastern, utc]) [princeton, greenwich] 4128 5 =
     Inr ([0, 1], [\<lparr>wall = 4130, offset = - 4, tz = eastern\<rparr>,
                   \<lparr>wall = 4134, offset = 0, tz = utc\<rparr>])"
  by (simp add: sunset_time_eq[OF time_grid_5] good_positions_toy toy_nb_def local_sunset_def
        winner_alone[of _ "_ # _ # _"] toy_winners astimezone_def utc_localize_def eastern_def utc_def)

subsection \<open>The body on its state\<close>

lemma loop_exec_eq:
  "loop_exec alt ps st =
     st\<lparr>sunset_idx_list := fst (sunset_loop alt ps (sunset_idx_list st, good_i_list st)),
        good_i_list := snd (sunset_loop alt ps (sunset_idx_list st, good_i_list st))\<rparr>"
proof (induction ps arbitrary: st)
  case Nil
  show ?case by simp
next
  case (Cons p ps)
  obtain i idx where p: "p = (i, idx)" by (cases p)
  show ?case
    by (cases "first_decreasing alt i idx") (simp_all add: p Cons.IH)
qed

lemma loop_exec_frame:
  "globals (loop_exec alt ps st) = globals st"
  "locs_arg (loop_exec alt ps st) = locs_arg st"
  "time_arg (loop_exec alt ps st) = time_arg st"
  by (simp_all add: loop_exec_eq)

lemma sunset_time_exec_result:
  "fst (sunset_time_exec eph n_time st) =
     sunset_time eph (globals st) (locs_arg st) (time_arg st) n_time"
  unfolding sunset_time_exec_def sunset_time_def
  by (simp add: loop_exec_eq Let_def split_beta split: sum.splits
        del: sunset_loop.simps loop_exec.simps)

lemma sunset_time_exec_frame:
  "globals (snd (sunset_time_exec eph n_time st)) = globals st"
  "locs_arg (snd (sunset_time_exec eph n_time st)) = locs_arg st"
  "time_arg (snd (sunset_time_exec eph n_time st)) = time_arg st"
  unfolding sunset_time_exec_def
  by (simp_all add: loop_exec_frame Let_def split: sum.splits del: loop_exec.simps)

lemma run_sunset_time_eq:
  "run_sunset_time eph locs time n_time nb = (sunset_time eph nb locs time n_time, nb)"
proof -
  let ?st = "\<lparr>globals = nb, locs_arg = locs, time_arg = time,
              sunset_idx_list = [], good_i_list = []\<rparr>"
  have "fst (sunset_time_exec eph n_time ?st) = sunset_time eph nb locs time n_time"
    by (simp add: sunset_time_exec_result)
  moreover have "globals (snd (sunset_time_exec eph n_time ?st)) = nb"
    by (simp add: sunset_time_exec_frame)
  ultimately show ?thesis by (simp add: run_sunset_time_def split_beta)
qed

lemma good_positions_princeton:
  "good_positions toy_eph [princeton] [4128, 4134, 4140, 4146, 4152] = [0]"
  by (simp add: good_positions_def winner_princeton)

lemma good_positions_swapped:
  "good_positions toy_eph [greenwich, princeton] [4128, 4134, 4140, 4146, 4152] = [0, 1]"
  by (simp add: good_positions_def upt_rec winner_alone[of _ "_ # _ # _"] toy_winners)

lemma sunset_time_exec_lists:
  assumes "time_grid (time_arg st) n_time = Inr grid"
  shows "good_i_list (snd (sunset_time_exec eph n_time st)) =
           good_positions eph (locs_arg st) grid"
    and "sunset_idx_list (snd (sunset_time_exec eph n_time st)) =
           map (\<lambda>i. projr (winner eph (locs_arg st) grid i)) (good_positions eph (locs_arg st) grid)"
  unfolding sunset_time_exec_def
  by (simp_all add: assms loop_exec_eq sunset_loop_sun_alt Let_def split: sum.splits
        del: loop_exec.simps sunset_loop.simps)

section \<open>The properties\<close>

text \<open>
  Claim C1. For every location \<open>i\<close> of a call and every candidate \<open>j\<close> that the minima
  search returns for it, the entry of the mask computed for \<open>j\<close> is true exactly when
  \<open>altitude[min(j+1, N-1)] - altitude[max(j-1, 0)] < 0\<close> on the altitude column of the
  location, the indices being clamped at the ends of the grid and not wrapped; the index
  chosen for the location is the smallest candidate that passes this test. The call
  returns exactly the locations that have a candidate passing the test, each with the
  conversion of the grid instant at its chosen index, or raises IndexError when one of
  them lies outside the table \<^verbatim>\<open>tzs\<close>.
\<close>

theorem sunset_is_first_decreasing_candidate:
  assumes "time_grid time n_time = Inr grid" and "i < length locs"
  shows "(\<forall>j\<in>set (candidates eph locs grid i).
            f_less (slope (sun_alt eph locs grid) i j) (Num 0) \<longleftrightarrow>
            clamped_slope_negative (map (eph (locs ! i)) grid) j) \<and>
         (\<forall>j. winner eph locs grid i = Inr j \<longleftrightarrow>
            j \<in> set (candidates eph locs grid i) \<and>
            clamped_slope_negative (map (eph (locs ! i)) grid) j \<and>
            (\<forall>k\<in>set (candidates eph locs grid i).
               clamped_slope_negative (map (eph (locs ! i)) grid) k \<longrightarrow> j \<le> k)) \<and>
         sunset_time eph nb locs time n_time =
           (if \<forall>q\<in>set (good_positions eph locs grid). q < length (tzs nb)
            then Inr (good_positions eph locs grid,
                      map (local_sunset eph nb locs grid) (good_positions eph locs grid))
            else Inl IndexError) \<and>
         (i \<in> set (good_positions eph locs grid) \<longleftrightarrow>
            (\<exists>j\<in>set (candidates eph locs grid i).
               clamped_slope_negative (map (eph (locs ! i)) grid) j)) \<and>
         (\<forall>j. winner eph locs grid i = Inr j \<longrightarrow>
            local_sunset eph nb locs grid i =
              astimezone (utc_localize (grid ! j)) (tzs nb ! i)) \<and>
         (\<forall>good_i sunsets k.
            sunset_time eph nb locs time n_time = Inr (good_i, sunsets) \<and>
            k < length good_i \<and> good_i ! k = i \<longrightarrow>
            (\<exists>j. winner eph locs grid i = Inr j \<and>
                 sunsets ! k = astimezone (utc_localize (grid ! j)) (tzs nb ! i)))"
proof -
  let ?good = "good_positions eph locs grid"
  let ?col = "map (eph (locs ! i)) grid"
  have m: "\<forall>j\<in>set (candidates eph locs grid i).
      f_less (slope (sun_alt eph locs grid) i j) (Num 0) \<longleftrightarrow> clamped_slope_negative ?col j"
    using slope_candidate[OF assms(2)] by blast
  have w: "\<forall>j. winner eph locs grid i = Inr j \<longleftrightarrow>
      j \<in> set (candidates eph locs grid i) \<and> clamped_slope_negative ?col j \<and>
      (\<forall>k\<in>set (candidates eph locs grid i). clamped_slope_negative ?col k \<longrightarrow> j \<le> k)"
    using winner_Inr_iff[OF assms(2)] by blast
  have r: "sunset_time eph nb locs time n_time =
      (if \<forall>q\<in>set ?good. q < length (tzs nb)
       then Inr (?good, map (local_sunset eph nb locs grid) ?good) else Inl IndexError)"
    by (rule sunset_time_eq[OF assms(1)])
  have g: "i \<in> set ?good \<longleftrightarrow>
      (\<exists>j\<in>set (candidates eph locs grid i). clamped_slope_negative ?col j)"
  proof -
    have "(\<exists>j. winner eph locs grid i = Inr j) \<longleftrightarrow> \<not> (\<exists>e. winner eph locs grid i = Inl e)"
      by (cases "winner eph locs grid i") auto
    then show ?thesis
      using assms(2) by (simp add: good_positions_iff winner_Inl_iff)
  qed
  have l: "\<forall>j. winner eph locs grid i = Inr j \<longrightarrow>
      local_sunset eph nb locs grid i = astimezone (utc_localize (grid ! j)) (tzs nb ! i)"
    by (simp add: local_sunset_def)
  have c: "\<exists>j. winner eph locs grid i = Inr j \<and>
        sunsets ! k = astimezone (utc_localize (grid ! j)) (tzs nb ! i)"
    if a: "sunset_time eph nb locs time n_time = Inr (good_i, sunsets) \<and>
        k < length good_i \<and> good_i ! k = i" for good_i sunsets k
  proof -
    from a have res: "good_i = ?good" "sunsets = map (local_sunset eph nb locs grid) ?good"
      using sunset_time_Inr[OF assms(1)] by blast+
    from a res have "i \<in> set ?good" by (metis nth_mem)
    then obtain j where j: "winner eph locs grid i = Inr j"
      using good_positions_iff by blast
    have "sunsets ! k = local_sunset eph nb locs grid i" using a res by simp
    with j l show ?thesis by simp
  qed
  from m w r g l c show ?thesis by blast
qed

text \<open>
  On the sample data Princeton has the candidates 1 and 3; the slope is negative at 1 and
  not at 3, the chosen index is 1, and the call returns hour 4134 for location 0.
\<close>

theorem sunset_is_first_decreasing_candidate_witness:
  "time_grid 4128 5 = Inr [4128, 4134, 4140, 4146, 4152] \<and> (0::nat) < length [princeton] \<and>
   set (candidates toy_eph [princeton] [4128, 4134, 4140, 4146, 4152] 0) = {1, 3} \<and>
   clamped_slope_negative (map (toy_eph ([princeton] ! 0)) [4128, 4134, 4140, 4146, 4152]) 1 \<and>
   \<not> clamped_slope_negative (map (toy_eph ([princeton] ! 0)) [4128, 4134, 4140, 4146, 4152]) 3 \<and>
   winner toy_eph [princeton] [4128, 4134, 4140, 4146, 4152] 0 = Inr 1 \<and>
   sunset_time toy_eph (toy_nb [eastern]) [princeton] 4128 5 =
     Inr ([0], [astimezone (utc_localize 4134) eastern])"
proof -
  let ?grid = "[4128, 4134, 4140, 4146, 4152] :: real list"
  let ?nb = "toy_nb [eastern]"
  have h: "(0::nat) < length [princeton]" by simp
  note fact = sunset_is_first_decreasing_candidate[OF time_grid_5 h, of toy_eph ?nb]
  have c: "set (candidates toy_eph [princeton] ?grid 0) = {1, 3}"
    by (simp add: candidates_princeton)
  have col: "map (toy_eph ([princeton] ! 0)) ?grid = [Num 3, Num 1, Num 2, Num (- 1), Num 3]"
    by (simp only: nth_Cons_0 toy_column)
  have s1: "clamped_slope_negative (map (toy_eph ([princeton] ! 0)) ?grid) 1"
    unfolding col by (simp add: clamped_slope_negative_def)
  have s3: "\<not> clamped_slope_negative (map (toy_eph ([princeton] ! 0)) ?grid) 3"
    unfolding col by (simp add: clamped_slope_negative_def)
  have w: "winner toy_eph [princeton] ?grid 0 = Inr 1"
    using fact c s1 by auto
  from fact w have ls: "local_sunset toy_eph ?nb [princeton] ?grid 0 =
      astimezone (utc_localize (?grid ! 1)) (tzs ?nb ! 0)"
    by blast
  have len: "length (tzs ?nb) = 1" by (simp add: toy_nb_def)
  have ls': "local_sunset toy_eph ?nb [princeton] ?grid 0 = astimezone (utc_localize 4134) eastern"
    using ls by (simp add: toy_nb_def)
  from fact have "sunset_time toy_eph ?nb [princeton] 4128 5 =
      (if \<forall>q\<in>set (good_positions toy_eph [princeton] ?grid). q < length (tzs ?nb)
       then Inr (good_positions toy_eph [princeton] ?grid,
                 map (local_sunset toy_eph ?nb [princeton] ?grid)
                   (good_positions toy_eph [princeton] ?grid))
       else Inl IndexError)"
    by blast
  then have "sunset_time toy_eph ?nb [princeton] 4128 5 =
      Inr ([0], [astimezone (utc_localize 4134) eastern])"
    by (simp add: good_positions_princeton ls' len)
  with time_grid_5 h c s1 s3 w show ?thesis by blast
qed

text \<open>
  Claim C2 reads the candidates as the non-strict circular minima of the squared altitude.
  On a grid of four instants the toy Sun is 1 degree above the horizon at index 1 and
  1 degree below at index 2: the squares are equal, index 1 is a minimum in the non-strict
  sense, and the search does not return it.
\<close>

theorem nonstrict_minimum_counterexample:
  "time_grid 0 4 = Inr [0, 8, 16, 24] \<and>
   circular_local_min (map f_sq (map (toy_eph princeton) [0, 8, 16, 24])) 1 \<and>
   1 \<notin> set (candidates toy_eph [princeton] [0, 8, 16, 24] 0)"
  by (simp add: time_grid_def linspace_def upt_rec candidates_eq toy_eph_princeton
        time_of_day_def argrelmin_filter circular_strict_min_def circular_local_min_def)

text \<open>
  Claim C2, amended. For every location \<open>i\<close> of a call, index \<open>k\<close> is a candidate if and
  only if it lies on the grid and \<open>value[k] < value[(k-1+N) mod N]\<close> and
  \<open>value[k] < value[(k+1) mod N]\<close>, where \<open>value[k]\<close> is the square of the altitude
  of the location at instant \<open>k\<close> and the neighbours wrap around the ends of the grid; the
  candidates are listed in ascending order.
\<close>

theorem candidates_are_strict_circular_minima:
  assumes "i < length locs"
  shows "(k \<in> set (candidates eph locs grid i) \<longleftrightarrow>
            k < length grid \<and> circular_strict_min (map f_sq (map (eph (locs ! i)) grid)) k) \<and>
         sorted_wrt (<) (candidates eph locs grid i)"
  using assms by (auto simp: candidates_eq argrelmin_filter sorted_wrt_filter)

text \<open>The candidates of Princeton on the sample grid are 1 and 3, both strict minima.\<close>

theorem candidates_are_strict_circular_minima_witness:
  "(0::nat) < length [princeton] \<and>
   set (candidates toy_eph [princeton] [4128, 4134, 4140, 4146, 4152] 0) = {1, 3} \<and>
   circular_strict_min (map f_sq (map (toy_eph ([princeton] ! 0)) [4128, 4134, 4140, 4146, 4152])) 1"
proof -
  have h: "(0::nat) < length [princeton]" by simp
  have c: "set (candidates toy_eph [princeton] [4128, 4134, 4140, 4146, 4152] 0) = {1, 3}"
    by (simp add: candidates_princeton)
  then have "1 \<in> set (candidates toy_eph [princeton] [4128, 4134, 4140, 4146, 4152] 0)" by simp
  with candidates_are_strict_circular_minima[OF h, of 1 toy_eph "[4128, 4134, 4140, 4146, 4152]"]
  have "circular_strict_min (map f_sq (map (toy_eph ([princeton] ! 0)) [4128, 4134, 4140, 4146, 4152])) 1"
    by blast
  with h c show ?thesis by blast
qed

text \<open>
  Claim C3 says that no two samples of the grid are the same time of day and that every
  grid spans 24 hours. The grid of three samples on day 0 is midnight, noon and the next
  midnight, so that its first and last samples are the same time of day; and the grid of
  one sample is the first midnight alone.
\<close>

theorem grid_endpoints_counterexample:
  "time_grid (midnight 0) 3 = Inr [0, 12, 24] \<and> time_of_day 0 = time_of_day 24 \<and>
   time_grid (midnight 0) 1 = Inr [0]"
  by (simp add: time_grid_def linspace_def upt_rec midnight_def time_of_day_def)

text \<open>
  Claim C3, amended. For every target day and every grid size \<open>N\<close> of at least 2, the grid
  is an ascending sequence of exactly \<open>N\<close> instants, \<open>24 / (N - 1)\<close> hours apart, whose
  first sample is 00:00 UTC of the target day and whose last sample is 00:00 UTC of the
  next day: both ends of the 24 hours are on the grid, and they are the same time of day.
\<close>

theorem time_grid_spans_both_midnights:
  assumes "2 \<le> n_time"
  shows "\<exists>grid. time_grid (midnight d) n_time = Inr grid \<and> length grid = nat n_time \<and>
      sorted_wrt (<) grid \<and>
      grid ! 0 = midnight d \<and> grid ! (nat n_time - 1) = midnight (d + 1) \<and>
      (\<forall>k. Suc k < nat n_time \<longrightarrow> grid ! Suc k - grid ! k = 24 / real_of_int (n_time - 1)) \<and>
      time_of_day (grid ! 0) = time_of_day (grid ! (nat n_time - 1))"
proof -
  define c :: real where "c = 24 / real_of_int (n_time - 1)"
  define grid where "grid = map (\<lambda>k. midnight d + real k * c) [0..<nat n_time]"
  have cpos: "0 < c" using assms by (simp add: c_def)
  have g: "time_grid (midnight d) n_time = Inr grid"
    unfolding grid_def c_def using assms by (rule time_grid_two)
  have len: "length grid = nat n_time" by (simp add: grid_def)
  have nth: "grid ! k = midnight d + real k * c" if "k < nat n_time" for k
    using that by (simp add: grid_def)
  have srt: "sorted_wrt (<) grid"
    unfolding sorted_wrt_iff_nth_less len using cpos by (simp add: nth)
  have first: "grid ! 0 = midnight d" using assms by (simp add: nth)
  have ne: "real_of_int (n_time - 1) \<noteq> 0" using assms by simp
  have "real (nat n_time - 1) = real_of_int (n_time - 1)" using assms by simp
  then have "real (nat n_time - 1) * c = real_of_int (n_time - 1) * (24 / real_of_int (n_time - 1))"
    by (simp only: c_def)
  also have "\<dots> = 24" using ne by (simp del: of_int_diff)
  finally have last: "grid ! (nat n_time - 1) = midnight (d + 1)"
    using assms by (simp add: nth midnight_def)
  have step: "grid ! Suc k - grid ! k = c" if "Suc k < nat n_time" for k
    using that by (simp add: nth algebra_simps)
  have tod: "time_of_day (midnight e) = 0" for e
    by (simp add: time_of_day_def midnight_def)
  show ?thesis
    using g len srt first last step unfolding c_def by (auto simp: tod)
qed

text \<open>For three samples the theorem determines the grid: midnight, noon, midnight.\<close>

theorem time_grid_spans_both_midnights_witness:
  "(2::int) \<le> 3 \<and> time_grid (midnight 0) 3 = Inr [0, 12, 24]"
proof -
  have h: "(2::int) \<le> 3" by simp
  obtain grid where g: "time_grid (midnight 0) 3 = Inr grid" "length grid = nat 3"
      "grid ! 0 = midnight 0" "grid ! (nat 3 - 1) = midnight (0 + 1)"
      "\<forall>k. Suc k < nat 3 \<longrightarrow> grid ! Suc k - grid ! k = 24 / real_of_int (3 - 1)"
    using time_grid_spans_both_midnights[OF h, of 0] by blast
  from g(5) have "grid ! Suc 0 - grid ! 0 = 12" by simp
  with g(3) have "grid ! 1 = 12" by (simp add: midnight_def)
  moreover from g(4) have "grid ! 2 = 24" by (simp add: midnight_def)
  moreover from g(3) have "grid ! 0 = 0" by (simp add: midnight_def)
  moreover from g(2) have "length grid = 3" by simp
  ultimately have "grid = [0, 12, 24]"
    by (auto simp: list_eq_iff_nth_eq less_Suc_eq numeral_3_eq_3 numeral_2_eq_2)
  with g(1) h show ?thesis by simp
qed



text \<open>
  Claim C5 says that the index of a skipped location is recorded separately. For the North
  Pole alone the loop skips location 0, and the call returns two empty arrays and leaves
  the notebook as it was: index 0 is recorded nowhere.
\<close>

theorem skipped_index_counterexample:
  "winner toy_eph [north_pole] [4128, 4134, 4140, 4146, 4152] 0 = Inl IndexError \<and>
   run_sunset_time toy_eph [north_pole] 4128 5 (toy_nb [utc]) = (Inr ([], []), toy_nb [utc])"
  by (simp add: winner_north_pole run_sunset_time_eq sunset_time_eq[OF time_grid_5]
        good_positions_toy)

text \<open>
  Claim C5, amended. A location with no minimum of the squared altitude, or with none that
  passes the slope test, produces no result: the IndexError is caught, the location is
  absent from the result, the other locations are treated as they would be alone and those
  with a winning index are all kept, and the call fails only if one of those lies outside
  the table \<^verbatim>\<open>tzs\<close>. The index of the skipped location is not recorded; it is only
  missing from the returned indices.
\<close>

theorem skipped_position_is_left_out:
  assumes "time_grid time n_time = Inr grid"
      and "p < length locs"
      and "\<not> (\<exists>j\<in>set (candidates eph locs grid p).
                clamped_slope_negative (map (eph (locs ! p)) grid) j)"
  shows "winner eph locs grid p = Inl IndexError \<and>
         p \<notin> set (good_positions eph locs grid) \<and>
         (\<forall>q<length locs. winner eph locs grid q = winner eph [locs ! q] grid 0) \<and>
         set (good_positions eph locs grid) =
           {q. q < length locs \<and> q \<noteq> p \<and> (\<exists>j. winner eph locs grid q = Inr j)} \<and>
         (sunset_time eph nb locs time n_time =
            Inr (good_positions eph locs grid,
                 map (local_sunset eph nb locs grid) (good_positions eph locs grid)) \<or>
          sunset_time eph nb locs time n_time = Inl IndexError \<and>
            (\<exists>q\<in>set (good_positions eph locs grid). q \<noteq> p \<and> length (tzs nb) \<le> q))"
proof -
  have w: "winner eph locs grid p = Inl IndexError"
    using assms(2,3) by (simp add: winner_Inl_iff)
  then have p: "p \<notin> set (good_positions eph locs grid)"
    by (simp add: good_positions_iff)
  have alone: "\<forall>q<length locs. winner eph locs grid q = winner eph [locs ! q] grid 0"
    using winner_alone by blast
  have good: "set (good_positions eph locs grid) =
      {q. q < length locs \<and> q \<noteq> p \<and> (\<exists>j. winner eph locs grid q = Inr j)}"
    using w by (auto simp: good_positions_iff)
  have "sunset_time eph nb locs time n_time =
            Inr (good_positions eph locs grid,
                 map (local_sunset eph nb locs grid) (good_positions eph locs grid)) \<or>
          sunset_time eph nb locs time n_time = Inl IndexError \<and>
            (\<exists>q\<in>set (good_positions eph locs grid). q \<noteq> p \<and> length (tzs nb) \<le> q)"
    using sunset_time_cases[OF assms(1), of eph nb locs] p by metis
  with w p alone good show ?thesis by blast
qed

text \<open>The North Pole between two other locations has no candidate and is left out.\<close>

theorem skipped_position_is_left_out_witness:
  "time_grid 4128 5 = Inr [4128, 4134, 4140, 4146, 4152] \<and>
   (1::nat) < length [princeton, north_pole, greenwich] \<and>
   candidates toy_eph [princeton, north_pole, greenwich] [4128, 4134, 4140, 4146, 4152] 1 = [] \<and>
   winner toy_eph [princeton, north_pole, greenwich] [4128, 4134, 4140, 4146, 4152] 1 = Inl IndexError \<and>
   1 \<notin> set (good_positions toy_eph [princeton, north_pole, greenwich] [4128, 4134, 4140, 4146, 4152])"
proof -
  have h: "(1::nat) < length [princeton, north_pole, greenwich]" by simp
  have c: "candidates toy_eph [princeton, north_pole, greenwich] [4128, 4134, 4140, 4146, 4152] 1 = []"
    by (simp add: candidates_eq toy_eph_north_pole argrelmin_filter circular_strict_min_def upt_rec)
  then have n: "\<not> (\<exists>j\<in>set (candidates toy_eph [princeton, north_pole, greenwich]
                        [4128, 4134, 4140, 4146, 4152] 1).
        clamped_slope_negative (map (toy_eph ([princeton, north_pole, greenwich] ! 1))
          [4128, 4134, 4140, 4146, 4152]) j)"
    by simp
  from skipped_position_is_left_out[OF time_grid_5 h n, of "toy_nb [eastern, utc, utc]"]
  show ?thesis using time_grid_5 h c by blast
qed

text \<open>
  Claim C6 says that a call returns its pairs for every sequence of locations. With two
  locations that both have a winning index and a table \<^verbatim>\<open>tzs\<close> of one zone, the read of
  \<^verbatim>\<open>tzs[1]\<close> raises IndexError and the call returns nothing.
\<close>

theorem short_table_counterexample:
  "winner toy_eph [princeton, greenwich] [4128, 4134, 4140, 4146, 4152] 0 = Inr 1 \<and>
   winner toy_eph [princeton, greenwich] [4128, 4134, 4140, 4146, 4152] 1 = Inr 1 \<and>
   sunset_time toy_eph (toy_nb [eastern]) [princeton, greenwich] 4128 5 = Inl IndexError"
  by (simp add: winner_alone[of _ "_ # _ # _"] toy_winners sunset_time_eq[OF time_grid_5]
        good_positions_toy toy_nb_def)

text \<open>
  Claim C6, amended. A call with a negative grid size raises ValueError. Otherwise the grid
  exists, and: if every location that has a winning index lies inside the table
  \<^verbatim>\<open>tzs\<close>, the call returns two arrays of the same length, the indices are strictly
  increasing and are exactly the locations that have a winning index, and the timestamp at
  each place is the one of the location whose index is at the same place; if some location
  that has a winning index lies outside the table, the call raises IndexError and returns
  nothing.
\<close>

theorem results_are_aligned_and_ordered:
  "(n_time < 0 \<longrightarrow> sunset_time eph nb locs time n_time = Inl ValueError) \<and>
   (0 \<le> n_time \<longrightarrow> (\<exists>grid. time_grid time n_time = Inr grid \<and> length grid = nat n_time)) \<and>
   (\<forall>grid. time_grid time n_time = Inr grid \<longrightarrow>
      ((\<forall>i<length locs. (\<exists>j. winner eph locs grid i = Inr j) \<longrightarrow> i < length (tzs nb)) \<longrightarrow>
         (\<exists>good_i sunsets.
            sunset_time eph nb locs time n_time = Inr (good_i, sunsets) \<and>
            length sunsets = length good_i \<and>
            sorted_wrt (<) good_i \<and>
            set good_i = {i. i < length locs \<and> (\<exists>j. winner eph locs grid i = Inr j)} \<and>
            (\<forall>k<length good_i. \<exists>j. winner eph locs grid (good_i ! k) = Inr j \<and>
               sunsets ! k = astimezone (utc_localize (grid ! j)) (tzs nb ! (good_i ! k))))) \<and>
      ((\<exists>i<length locs. (\<exists>j. winner eph locs grid i = Inr j) \<and> length (tzs nb) \<le> i) \<longrightarrow>
         sunset_time eph nb locs time n_time = Inl IndexError))"
proof (intro conjI allI impI)
  assume "n_time < 0"
  then show "sunset_time eph nb locs time n_time = Inl ValueError"
    by (rule sunset_time_negative)
next
  assume "0 \<le> n_time"
  then show "\<exists>grid. time_grid time n_time = Inr grid \<and> length grid = nat n_time"
    by (rule time_grid_Inr)
next
  fix grid
  assume g: "time_grid time n_time = Inr grid"
    and cover: "\<forall>i<length locs. (\<exists>j. winner eph locs grid i = Inr j) \<longrightarrow> i < length (tzs nb)"
  let ?good = "good_positions eph locs grid"
  let ?sunsets = "map (local_sunset eph nb locs grid) ?good"
  have inside: "\<forall>i\<in>set ?good. i < length (tzs nb)"
    using cover by (auto simp: good_positions_iff)
  then have res: "sunset_time eph nb locs time n_time = Inr (?good, ?sunsets)"
    by (simp add: sunset_time_eq[OF g])
  have each: "\<exists>j. winner eph locs grid (?good ! k) = Inr j \<and>
      ?sunsets ! k = astimezone (utc_localize (grid ! j)) (tzs nb ! (?good ! k))"
    if "k < length ?good" for k
  proof -
    from that have "?good ! k \<in> set ?good" by simp
    then obtain j where j: "winner eph locs grid (?good ! k) = Inr j"
      using good_positions_iff by blast
    then show ?thesis using that by (simp add: local_sunset_def)
  qed
  have "set ?good = {i. i < length locs \<and> (\<exists>j. winner eph locs grid i = Inr j)}"
    by (auto simp: good_positions_iff)
  with res each good_positions_sorted[of eph locs grid]
  show "\<exists>good_i sunsets.
      sunset_time eph nb locs time n_time = Inr (good_i, sunsets) \<and>
      length sunsets = length good_i \<and>
      sorted_wrt (<) good_i \<and>
      set good_i = {i. i < length locs \<and> (\<exists>j. winner eph locs grid i = Inr j)} \<and>
      (\<forall>k<length good_i. \<exists>j. winner eph locs grid (good_i ! k) = Inr j \<and>
         sunsets ! k = astimezone (utc_localize (grid ! j)) (tzs nb ! (good_i ! k)))"
    by (intro exI[of _ ?good] exI[of _ ?sunsets]) simp
next
  fix grid
  assume g: "time_grid time n_time = Inr grid"
    and "\<exists>i<length locs. (\<exists>j. winner eph locs grid i = Inr j) \<and> length (tzs nb) \<le> i"
  then obtain i where "i \<in> set (good_positions eph locs grid)" "length (tzs nb) \<le> i"
    using good_positions_iff by blast
  then have "\<not> (\<forall>i\<in>set (good_positions eph locs grid). i < length (tzs nb))"
    by (auto simp: not_less)
  then show "sunset_time eph nb locs time n_time = Inl IndexError"
    by (simp add: sunset_time_eq[OF g])
qed

text \<open>
  Three sample locations with a table of three zones: the call returns, and the theorem
  gives the shape of its result. Two locations with a table of one zone: IndexError. A grid
  size of -1: ValueError.
\<close>

theorem results_are_aligned_and_ordered_witness:
  "time_grid 4128 5 = Inr [4128, 4134, 4140, 4146, 4152] \<and>
   (\<exists>good_i sunsets.
      sunset_time toy_eph (toy_nb [eastern, utc, utc]) [princeton, north_pole, greenwich] 4128 5 =
        Inr (good_i, sunsets) \<and>
      length sunsets = length good_i \<and> sorted_wrt (<) good_i \<and>
      set good_i = {i. i < length [princeton, north_pole, greenwich] \<and>
        (\<exists>j. winner toy_eph [princeton, north_pole, greenwich]
                [4128, 4134, 4140, 4146, 4152] i = Inr j)}) \<and>
   (1::nat) < length [princeton, greenwich] \<and>
   winner toy_eph [princeton, greenwich] [4128, 4134, 4140, 4146, 4152] 1 = Inr 1 \<and>
   length (tzs (toy_nb [eastern])) \<le> 1 \<and>
   sunset_time toy_eph (toy_nb [eastern]) [princeton, greenwich] 4128 5 = Inl IndexError \<and>
   sunset_time toy_eph (toy_nb [eastern]) [princeton, greenwich] 4128 (- 1) = Inl ValueError"
proof -
  let ?grid = "[4128, 4134, 4140, 4146, 4152] :: real list"
  have cover: "\<forall>i<length [princeton, north_pole, greenwich].
      (\<exists>j. winner toy_eph [princeton, north_pole, greenwich] ?grid i = Inr j) \<longrightarrow>
      i < length (tzs (toy_nb [eastern, utc, utc]))"
    by (simp add: toy_nb_def)
  from results_are_aligned_and_ordered[of 5 toy_eph "toy_nb [eastern, utc, utc]"
      "[princeton, north_pole, greenwich]" 4128] time_grid_5 cover
  have pos: "\<exists>good_i sunsets.
      sunset_time toy_eph (toy_nb [eastern, utc, utc]) [princeton, north_pole, greenwich] 4128 5 =
        Inr (good_i, sunsets) \<and>
      length sunsets = length good_i \<and> sorted_wrt (<) good_i \<and>
      set good_i = {i. i < length [princeton, north_pole, greenwich] \<and>
        (\<exists>j. winner toy_eph [princeton, north_pole, greenwich] ?grid i = Inr j)}"
    by blast
  have h: "(1::nat) < length [princeton, greenwich]" by simp
  have w: "winner toy_eph [princeton, greenwich] ?grid 1 = Inr 1"
    by (simp add: winner_alone[of _ "_ # _ # _"] winner_greenwich)
  have l: "length (tzs (toy_nb [eastern])) \<le> 1" by (simp add: toy_nb_def)
  from results_are_aligned_and_ordered[of 5 toy_eph "toy_nb [eastern]"
      "[princeton, greenwich]" 4128] time_grid_5 h w l
  have neg: "sunset_time toy_eph (toy_nb [eastern]) [princeton, greenwich] 4128 5 = Inl IndexError"
    by blast
  have "(- 1 :: int) < 0" by simp
  with results_are_aligned_and_ordered[of "- 1" toy_eph "toy_nb [eastern]"
      "[princeton, greenwich]" 4128]
  have val: "sunset_time toy_eph (toy_nb [eastern]) [princeton, greenwich] 4128 (- 1) =
      Inl ValueError"
    by blast
  from time_grid_5 pos h w l neg val show ?thesis by blast
qed

text \<open>
  Claim C7 says that the other locations of a batch are returned whenever one location has
  NaN coordinates. With a NaN location between Princeton and Greenwich and a table
  \<^verbatim>\<open>tzs\<close> of one zone, Princeton and Greenwich both have a winning index, the read of
  \<^verbatim>\<open>tzs[2]\<close> raises IndexError, and nothing is returned.
\<close>

theorem nan_batch_short_table_counterexample:
  "lon ([princeton, nowhere, greenwich] ! 1) = NaN \<and>
   winner toy_eph [princeton, nowhere, greenwich] [4128, 4134, 4140, 4146, 4152] 0 = Inr 1 \<and>
   winner toy_eph [princeton, nowhere, greenwich] [4128, 4134, 4140, 4146, 4152] 2 = Inr 1 \<and>
   sunset_time toy_eph (toy_nb [eastern]) [princeton, nowhere, greenwich] 4128 5 =
     Inl IndexError"
proof -
  have "lon ([princeton, nowhere, greenwich] ! 1) = NaN" by (simp add: nowhere_def)
  moreover have
    "winner toy_eph [princeton, nowhere, greenwich] [4128, 4134, 4140, 4146, 4152] 0 = Inr 1"
    "winner toy_eph [princeton, nowhere, greenwich] [4128, 4134, 4140, 4146, 4152] 2 = Inr 1"
    by (simp_all add: winner_alone[of _ "_ # _ # _"] toy_winners)
  moreover have
    "sunset_time toy_eph (toy_nb [eastern]) [princeton, nowhere, greenwich] 4128 5 =
       Inl IndexError"
    by (simp add: sunset_time_eq[OF time_grid_5] good_positions_toy toy_nb_def)
  ultimately show ?thesis by blast
qed

text \<open>
  Claim C7, amended. Let the ephemeris give NaN for a location with a NaN coordinate, and
  let the call build its grid. Then such a location has no candidate, the IndexError of its
  empty choice is caught, and it is absent from the result; every other location is treated
  as it would be alone. If every other location that has a winning index lies inside the
  table \<^verbatim>\<open>tzs\<close>, the call returns exactly those locations, each with the conversion of
  its grid instant; otherwise it raises IndexError, which the NaN location never causes.
\<close>

theorem nan_position_fails_alone:
  assumes "\<forall>l t. lon l = NaN \<or> lat l = NaN \<longrightarrow> eph l t = NaN"
      and "time_grid time n_time = Inr grid"
      and "p < length locs"
      and "lon (locs ! p) = NaN \<or> lat (locs ! p) = NaN"
  shows "candidates eph locs grid p = [] \<and>
         winner eph locs grid p = Inl IndexError \<and>
         p \<notin> set (good_positions eph locs grid) \<and>
         (\<forall>q<length locs. winner eph locs grid q = winner eph [locs ! q] grid 0) \<and>
         set (good_positions eph locs grid) =
           {q. q < length locs \<and> q \<noteq> p \<and> (\<exists>j. winner eph locs grid q = Inr j)} \<and>
         sunset_time eph nb locs time n_time =
           (if \<forall>q<length locs. q \<noteq> p \<and> (\<exists>j. winner eph locs grid q = Inr j)
                  \<longrightarrow> q < length (tzs nb)
            then Inr (good_positions eph locs grid,
                      map (local_sunset eph nb locs grid) (good_positions eph locs grid))
            else Inl IndexError) \<and>
         (\<forall>k<length (good_positions eph locs grid).
            \<exists>j. winner eph locs grid (good_positions eph locs grid ! k) = Inr j \<and>
              local_sunset eph nb locs grid (good_positions eph locs grid ! k) =
                astimezone (utc_localize (grid ! j)) (tzs nb ! (good_positions eph locs grid ! k)))"
proof -
  let ?good = "good_positions eph locs grid"
  have "\<forall>x\<in>set (map f_sq (map (eph (locs ! p)) grid)). x = NaN"
    using assms(1,4) by auto
  then have c: "candidates eph locs grid p = []"
    using assms(3) by (simp only: candidates_eq argrelmin_all_NaN)
  then have w: "winner eph locs grid p = Inl IndexError"
    using assms(3) by (simp add: winner_Inl_iff)
  then have p: "p \<notin> set ?good"
    by (simp add: good_positions_iff)
  have alone: "\<forall>q<length locs. winner eph locs grid q = winner eph [locs ! q] grid 0"
    using winner_alone by blast
  have good: "set ?good =
      {q. q < length locs \<and> q \<noteq> p \<and> (\<exists>j. winner eph locs grid q = Inr j)}"
    using w by (auto simp: good_positions_iff)
  have cond: "(\<forall>q\<in>set ?good. q < length (tzs nb)) \<longleftrightarrow>
      (\<forall>q<length locs. q \<noteq> p \<and> (\<exists>j. winner eph locs grid q = Inr j) \<longrightarrow> q < length (tzs nb))"
    unfolding good by blast
  have res: "sunset_time eph nb locs time n_time =
      (if \<forall>q<length locs. q \<noteq> p \<and> (\<exists>j. winner eph locs grid q = Inr j) \<longrightarrow> q < length (tzs nb)
       then Inr (?good, map (local_sunset eph nb locs grid) ?good) else Inl IndexError)"
    unfolding sunset_time_eq[OF assms(2)] cond ..
  have each: "\<forall>k<length ?good. \<exists>j. winner eph locs grid (?good ! k) = Inr j \<and>
      local_sunset eph nb locs grid (?good ! k) =
        astimezone (utc_localize (grid ! j)) (tzs nb ! (?good ! k))"
  proof (intro allI impI)
    fix k assume "k < length ?good"
    then have "?good ! k \<in> set ?good" by simp
    then obtain j where "winner eph locs grid (?good ! k) = Inr j"
      using good_positions_iff by blast
    then show "\<exists>j. winner eph locs grid (?good ! k) = Inr j \<and>
        local_sunset eph nb locs grid (?good ! k) =
          astimezone (utc_localize (grid ! j)) (tzs nb ! (?good ! k))"
      by (simp add: local_sunset_def)
  qed
  from c w p alone good res each show ?thesis by blast
qed

text \<open>
  A location with NaN coordinates between Princeton and Greenwich: the call returns the
  sunsets of locations 0 and 2.
\<close>

theorem nan_position_fails_alone_witness:
  "time_grid 4128 5 = Inr [4128, 4134, 4140, 4146, 4152] \<and>
   (1::nat) < length [princeton, nowhere, greenwich] \<and>
   lon ([princeton, nowhere, greenwich] ! 1) = NaN \<and>
   candidates toy_eph [princeton, nowhere, greenwich] [4128, 4134, 4140, 4146, 4152] 1 = [] \<and>
   sunset_time toy_eph (toy_nb [eastern, utc, utc]) [princeton, nowhere, greenwich] 4128 5 =
     Inr ([0, 2], [\<lparr>wall = 4130, offset = - 4, tz = eastern\<rparr>,
                   \<lparr>wall = 4134, offset = 0, tz = utc\<rparr>])"
proof -
  let ?locs = "[princeton, nowhere, greenwich]"
  let ?grid = "[4128, 4134, 4140, 4146, 4152] :: real list"
  let ?nb = "toy_nb [eastern, utc, utc]"
  have nanp: "\<forall>l t. lon l = NaN \<or> lat l = NaN \<longrightarrow> toy_eph l t = NaN"
    using toy_eph_NaN by blast
  have h: "(1::nat) < length ?locs" by simp
  have n: "lon (?locs ! 1) = NaN" by (simp add: nowhere_def)
  then have n': "lon (?locs ! 1) = NaN \<or> lat (?locs ! 1) = NaN" by blast
  note concl = nan_position_fails_alone[OF nanp time_grid_5 h n', of ?nb]
  have c: "candidates toy_eph ?locs ?grid 1 = []" using concl by blast
  have cover: "\<forall>q<length ?locs. q \<noteq> 1 \<and> (\<exists>j. winner toy_eph ?locs ?grid q = Inr j)
      \<longrightarrow> q < length (tzs ?nb)"
    by (simp add: toy_nb_def)
  from concl have "sunset_time toy_eph ?nb ?locs 4128 5 =
      (if \<forall>q<length ?locs. q \<noteq> 1 \<and> (\<exists>j. winner toy_eph ?locs ?grid q = Inr j)
             \<longrightarrow> q < length (tzs ?nb)
       then Inr (good_positions toy_eph ?locs ?grid,
                 map (local_sunset toy_eph ?nb ?locs ?grid) (good_positions toy_eph ?locs ?grid))
       else Inl IndexError)"
    by blast
  also have "\<dots> = Inr (good_positions toy_eph ?locs ?grid,
      map (local_sunset toy_eph ?nb ?locs ?grid) (good_positions toy_eph ?locs ?grid))"
    using cover by (rule if_P)
  also have "\<dots> = Inr ([0, 2], [\<lparr>wall = 4130, offset = - 4, tz = eastern\<rparr>,
                   \<lparr>wall = 4134, offset = 0, tz = utc\<rparr>])"
    by (simp add: good_positions_toy local_sunset_def winner_alone[of _ "_ # _ # _"] toy_winners
          toy_nb_def astimezone_def utc_localize_def eastern_def utc_def)
  finally show ?thesis using time_grid_5 h n c by blast
qed

text \<open>
  Claim C8. The body of the function, run statement by statement on the objects it can
  reach, leaves the globals of the notebook and the two arguments as they were: it writes
  only the two lists it creates. Two calls with the same locations, the same time and the
  same grid size, in any two states with the same table \<^verbatim>\<open>tzs\<close>, whatever else the
  states hold, return the same result; so does a second call in the state the first one
  left. The result is the one of \<open>sunset_time\<close>. The ephemeris is an argument of the
  model, so it is the same in both calls.
\<close>

theorem sunset_time_deterministic_stateless:
  "globals (snd (sunset_time_exec eph n_time st)) = globals st \<and>
   locs_arg (snd (sunset_time_exec eph n_time st)) = locs_arg st \<and>
   time_arg (snd (sunset_time_exec eph n_time st)) = time_arg st \<and>
   (\<forall>st'. locs_arg st' = locs_arg st \<and> time_arg st' = time_arg st \<and>
          tzs (globals st') = tzs (globals st) \<longrightarrow>
      fst (sunset_time_exec eph n_time st') = fst (sunset_time_exec eph n_time st)) \<and>
   fst (sunset_time_exec eph n_time (snd (sunset_time_exec eph n_time st))) =
     fst (sunset_time_exec eph n_time st) \<and>
   fst (sunset_time_exec eph n_time st) =
     sunset_time eph (globals st) (locs_arg st) (time_arg st) n_time \<and>
   snd (run_sunset_time eph locs time n_time nb) = nb \<and>
   fst (run_sunset_time eph locs time n_time (snd (run_sunset_time eph locs time n_time nb))) =
     fst (run_sunset_time eph locs time n_time nb)"
proof -
  let ?after = "snd (sunset_time_exec eph n_time st)"
  have frame: "globals ?after = globals st" "locs_arg ?after = locs_arg st"
      "time_arg ?after = time_arg st"
    by (rule sunset_time_exec_frame)+
  have same: "fst (sunset_time_exec eph n_time st') = fst (sunset_time_exec eph n_time st)"
    if "locs_arg st' = locs_arg st \<and> time_arg st' = time_arg st \<and>
        tzs (globals st') = tzs (globals st)" for st'
  proof -
    have "sunset_time eph (globals st') (locs_arg st) (time_arg st) n_time =
        sunset_time eph (globals st) (locs_arg st) (time_arg st) n_time"
      using that by (intro sunset_time_tzs) simp
    then show ?thesis using that by (simp add: sunset_time_exec_result)
  qed
  have again: "fst (sunset_time_exec eph n_time ?after) = fst (sunset_time_exec eph n_time st)"
    by (rule same) (simp add: frame)
  have pure: "fst (sunset_time_exec eph n_time st) =
      sunset_time eph (globals st) (locs_arg st) (time_arg st) n_time"
    by (rule sunset_time_exec_result)
  have run: "snd (run_sunset_time eph locs time n_time nb) = nb"
      "fst (run_sunset_time eph locs time n_time (snd (run_sunset_time eph locs time n_time nb))) =
        fst (run_sunset_time eph locs time n_time nb)"
    by (simp_all add: run_sunset_time_eq)
  from frame same again pure run show ?thesis by blast
qed

text \<open>
  Two states that differ in \<^verbatim>\<open>day\<close>, in \<^verbatim>\<open>county_locs\<close> and in what the two lists hold
  at the start: the results are the same pair of sunsets, and the call that started with
  stale lists leaves the indices 0 and 1 in \<^verbatim>\<open>good_i\<close>.
\<close>

theorem sunset_time_deterministic_stateless_witness:
  "locs_arg \<lparr>globals = (toy_nb [eastern, utc])\<lparr>day := 4128, county_locs := [greenwich]\<rparr>,
             locs_arg = [princeton, greenwich], time_arg = 4128,
             sunset_idx_list = [3, 3, 3], good_i_list = [7]\<rparr> =
   locs_arg \<lparr>globals = toy_nb [eastern, utc], locs_arg = [princeton, greenwich],
             time_arg = 4128, sunset_idx_list = [], good_i_list = []\<rparr> \<and>
   fst (sunset_time_exec toy_eph 5
          \<lparr>globals = (toy_nb [eastern, utc])\<lparr>day := 4128, county_locs := [greenwich]\<rparr>,
           locs_arg = [princeton, greenwich], time_arg = 4128,
           sunset_idx_list = [3, 3, 3], good_i_list = [7]\<rparr>) =
   fst (sunset_time_exec toy_eph 5
          \<lparr>globals = toy_nb [eastern, utc], locs_arg = [princeton, greenwich],
           time_arg = 4128, sunset_idx_list = [], good_i_list = []\<rparr>) \<and>
   fst (sunset_time_exec toy_eph 5
          \<lparr>globals = toy_nb [eastern, utc], locs_arg = [princeton, greenwich],
           time_arg = 4128, sunset_idx_list = [], good_i_list = []\<rparr>) =
     Inr ([0, 1], [\<lparr>wall = 4130, offset = - 4, tz = eastern\<rparr>,
                   \<lparr>wall = 4134, offset = 0, tz = utc\<rparr>]) \<and>
   good_i_list (snd (sunset_time_exec toy_eph 5
          \<lparr>globals = (toy_nb [eastern, utc])\<lparr>day := 4128, county_locs := [greenwich]\<rparr>,
           locs_arg = [princeton, greenwich], time_arg = 4128,
           sunset_idx_list = [3, 3, 3], good_i_list = [7]\<rparr>)) = [0, 1]"
proof -
  let ?st = "\<lparr>globals = toy_nb [eastern, utc], locs_arg = [princeton, greenwich],
              time_arg = 4128, sunset_idx_list = [], good_i_list = []\<rparr>"
  let ?st' = "\<lparr>globals = (toy_nb [eastern, utc])\<lparr>day := 4128, county_locs := [greenwich]\<rparr>,
               locs_arg = [princeton, greenwich], time_arg = 4128,
               sunset_idx_list = [3, 3, 3], good_i_list = [7]\<rparr>"
  note fact = sunset_time_deterministic_stateless[of toy_eph 5 ?st]
  have agree: "locs_arg ?st' = locs_arg ?st \<and> time_arg ?st' = time_arg ?st \<and>
      tzs (globals ?st') = tzs (globals ?st)"
    by simp
  with fact have same: "fst (sunset_time_exec toy_eph 5 ?st') = fst (sunset_time_exec toy_eph 5 ?st)"
    by blast
  from fact have "fst (sunset_time_exec toy_eph 5 ?st) =
      sunset_time toy_eph (globals ?st) (locs_arg ?st) (time_arg ?st) 5"
    by blast
  then have val: "fst (sunset_time_exec toy_eph 5 ?st) =
      Inr ([0, 1], [\<lparr>wall = 4130, offset = - 4, tz = eastern\<rparr>,
                    \<lparr>wall = 4134, offset = 0, tz = utc\<rparr>])"
    by (simp add: sunset_time_toy)
  have g: "time_grid (time_arg ?st') 5 = Inr [4128, 4134, 4140, 4146, 4152]"
    by (simp add: time_grid_5)
  have lists: "good_i_list (snd (sunset_time_exec toy_eph 5 ?st')) = [0, 1]"
    unfolding sunset_time_exec_lists(1)[OF g] by (simp add: good_positions_toy)
  from agree same val lists show ?thesis by blast
qed

text \<open>
  Claim C9. For a zone whose offset from UTC is zero at every instant, the conversion step
  \<^verbatim>\<open>utc.localize(t).astimezone(z)\<close> gives a timestamp with the wall-clock reading
  \<open>t\<close> and offset zero; so the timestamp of a location whose zone in the table is such
  a zone reads the UTC instant of its grid index unchanged.
\<close>

theorem utc_round_trip:
  assumes "\<forall>u. utcoffset z u = 0"
  shows "wall (astimezone (utc_localize t) z) = t \<and>
         offset (astimezone (utc_localize t) z) = 0 \<and>
         wall (astimezone (utc_localize t) z) = wall (utc_localize t) \<and>
         (tzs nb ! i = z \<longrightarrow>
            wall (local_sunset eph nb locs grid i) = grid ! projr (winner eph locs grid i))"
  using assms by (simp add: astimezone_def utc_localize_def local_sunset_def)

text \<open>The zone UTC itself, at hour 4134.\<close>

theorem utc_round_trip_witness:
  "wall (astimezone (utc_localize 4134) utc) = 4134 \<and>
   offset (astimezone (utc_localize 4134) utc) = 0"
proof -
  have "\<forall>u. utcoffset utc u = 0" by (simp add: utc_def)
  from utc_round_trip[OF this, of 4134] show ?thesis by blast
qed

text \<open>
  Claim C10. A call returns when every location that has a winning index lies inside the
  global table \<^verbatim>\<open>tzs\<close>, and raises IndexError otherwise. The zone of a returned timestamp
  is the entry of the table at the index of the location, whatever the location is. So,
  for any assignment \<open>own_zone\<close> of a zone to each location, the returned timestamps all
  carry the zone of their own location if and only if the table agrees with \<open>own_zone\<close>
  at every returned index; where it does not, the call returns a timestamp in the wrong
  zone and raises nothing.
\<close>

theorem timezone_comes_from_table_index:
  assumes "time_grid time n_time = Inr grid"
  shows "sunset_time eph nb locs time n_time =
           (if \<forall>i<length locs. (\<exists>j. winner eph locs grid i = Inr j) \<longrightarrow> i < length (tzs nb)
            then Inr (good_positions eph locs grid,
                      map (local_sunset eph nb locs grid) (good_positions eph locs grid))
            else Inl IndexError) \<and>
         (\<forall>i. tz (local_sunset eph nb locs grid i) = tzs nb ! i) \<and>
         (\<forall>i. i \<in> set (good_positions eph locs grid) \<longleftrightarrow>
              i < length locs \<and> (\<exists>j. winner eph locs grid i = Inr j)) \<and>
         (\<forall>good_i sunsets. sunset_time eph nb locs time n_time = Inr (good_i, sunsets) \<longrightarrow>
            length sunsets = length good_i \<and>
            (\<forall>k<length good_i. good_i ! k < length (tzs nb) \<and>
               tz (sunsets ! k) = tzs nb ! (good_i ! k)) \<and>
            ((\<forall>k<length good_i. tz (sunsets ! k) = own_zone (locs ! (good_i ! k))) \<longleftrightarrow>
             (\<forall>i\<in>set good_i. tzs nb ! i = own_zone (locs ! i)))) \<and>
         ((\<exists>i<length locs. (\<exists>j. winner eph locs grid i = Inr j) \<and> length (tzs nb) \<le> i) \<longrightarrow>
            sunset_time eph nb locs time n_time = Inl IndexError)"
proof -
  let ?good = "good_positions eph locs grid"
  have cond: "(\<forall>i\<in>set ?good. i < length (tzs nb)) \<longleftrightarrow>
      (\<forall>i<length locs. (\<exists>j. winner eph locs grid i = Inr j) \<longrightarrow> i < length (tzs nb))"
    by (auto simp: good_positions_iff)
  have res: "sunset_time eph nb locs time n_time =
      (if \<forall>i<length locs. (\<exists>j. winner eph locs grid i = Inr j) \<longrightarrow> i < length (tzs nb)
       then Inr (?good, map (local_sunset eph nb locs grid) ?good) else Inl IndexError)"
    unfolding sunset_time_eq[OF assms] cond ..
  have zone_of: "\<forall>i. tz (local_sunset eph nb locs grid i) = tzs nb ! i"
    by (simp add: local_sunset_def astimezone_fields)
  have mem: "\<forall>i. i \<in> set ?good \<longleftrightarrow> i < length locs \<and> (\<exists>j. winner eph locs grid i = Inr j)"
    using good_positions_iff by blast
  have returned: "length sunsets = length good_i \<and>
      (\<forall>k<length good_i. good_i ! k < length (tzs nb) \<and>
         tz (sunsets ! k) = tzs nb ! (good_i ! k)) \<and>
      ((\<forall>k<length good_i. tz (sunsets ! k) = own_zone (locs ! (good_i ! k))) \<longleftrightarrow>
       (\<forall>i\<in>set good_i. tzs nb ! i = own_zone (locs ! i)))"
    if r: "sunset_time eph nb locs time n_time = Inr (good_i, sunsets)" for good_i sunsets
  proof -
    note res' = sunset_time_Inr[OF assms r]
    have len: "length sunsets = length good_i" by (simp add: res'(2))
    have zone: "tz (sunsets ! k) = tzs nb ! (good_i ! k)" if "k < length good_i" for k
      using that by (simp add: res'(2) local_sunset_def astimezone_fields)
    have inside: "\<forall>k<length good_i. good_i ! k < length (tzs nb) \<and>
        tz (sunsets ! k) = tzs nb ! (good_i ! k)"
      using zone res'(3) by simp
    have "(\<forall>k<length good_i. tz (sunsets ! k) = own_zone (locs ! (good_i ! k))) \<longleftrightarrow>
          (\<forall>i\<in>set good_i. tzs nb ! i = own_zone (locs ! i))"
    proof
      assume a: "\<forall>k<length good_i. tz (sunsets ! k) = own_zone (locs ! (good_i ! k))"
      show "\<forall>i\<in>set good_i. tzs nb ! i = own_zone (locs ! i)"
      proof
        fix i assume "i \<in> set good_i"
        then obtain k where "k < length good_i" "good_i ! k = i"
          by (auto simp: in_set_conv_nth)
        then show "tzs nb ! i = own_zone (locs ! i)"
          using a zone by force
      qed
    next
      assume a: "\<forall>i\<in>set good_i. tzs nb ! i = own_zone (locs ! i)"
      show "\<forall>k<length good_i. tz (sunsets ! k) = own_zone (locs ! (good_i ! k))"
        using a zone by simp
    qed
    with len inside show ?thesis by blast
  qed
  have fails: "sunset_time eph nb locs time n_time = Inl IndexError"
    if "\<exists>i<length locs. (\<exists>j. winner eph locs grid i = Inr j) \<and> length (tzs nb) \<le> i"
  proof -
    from that have "\<not> (\<forall>i<length locs. (\<exists>j. winner eph locs grid i = Inr j)
        \<longrightarrow> i < length (tzs nb))"
      by (auto simp: not_less)
    then show ?thesis unfolding res by (rule if_not_P)
  qed
  from res zone_of mem returned fails show ?thesis by blast
qed

text \<open>
  Greenwich and Princeton against a table that lists Eastern time first: the call
  returns, and the timestamp of Greenwich carries Eastern time although Greenwich lies in
  UTC. Greenwich at index 1 with a table of one zone: the call fails.
\<close>

theorem timezone_comes_from_table_index_witness:
  "time_grid 4128 5 = Inr [4128, 4134, 4140, 4146, 4152] \<and>
   sunset_time toy_eph (toy_nb [eastern, utc]) [greenwich, princeton] 4128 5 =
     Inr ([0, 1],
          [local_sunset toy_eph (toy_nb [eastern, utc]) [greenwich, princeton]
             [4128, 4134, 4140, 4146, 4152] 0,
           local_sunset toy_eph (toy_nb [eastern, utc]) [greenwich, princeton]
             [4128, 4134, 4140, 4146, 4152] 1]) \<and>
   tz (local_sunset toy_eph (toy_nb [eastern, utc]) [greenwich, princeton]
         [4128, 4134, 4140, 4146, 4152] 0) = eastern \<and>
   toy_zone_of ([greenwich, princeton] ! 0) = utc \<and>
   eastern \<noteq> utc \<and>
   (1::nat) < length [princeton, greenwich] \<and>
   winner toy_eph [princeton, greenwich] [4128, 4134, 4140, 4146, 4152] 1 = Inr 1 \<and>
   length (tzs (toy_nb [eastern])) \<le> 1 \<and>
   sunset_time toy_eph (toy_nb [eastern]) [princeton, greenwich] 4128 5 = Inl IndexError"
proof -
  let ?grid = "[4128, 4134, 4140, 4146, 4152] :: real list"
  let ?nb = "toy_nb [eastern, utc]"
  let ?locs = "[greenwich, princeton]"
  note swapped = timezone_comes_from_table_index[OF time_grid_5, of toy_eph ?nb ?locs toy_zone_of]
  have cover: "\<forall>i<length ?locs. (\<exists>j. winner toy_eph ?locs ?grid i = Inr j)
      \<longrightarrow> i < length (tzs ?nb)"
    by (simp add: toy_nb_def)
  from swapped have "sunset_time toy_eph ?nb ?locs 4128 5 =
      (if \<forall>i<length ?locs. (\<exists>j. winner toy_eph ?locs ?grid i = Inr j) \<longrightarrow> i < length (tzs ?nb)
       then Inr (good_positions toy_eph ?locs ?grid,
                 map (local_sunset toy_eph ?nb ?locs ?grid) (good_positions toy_eph ?locs ?grid))
       else Inl IndexError)"
    by blast
  also have "\<dots> = Inr (good_positions toy_eph ?locs ?grid,
      map (local_sunset toy_eph ?nb ?locs ?grid) (good_positions toy_eph ?locs ?grid))"
    using cover by (rule if_P)
  also have "\<dots> = Inr ([0, 1], [local_sunset toy_eph ?nb ?locs ?grid 0,
      local_sunset toy_eph ?nb ?locs ?grid 1])"
    by (simp add: good_positions_swapped)
  finally have ret: "sunset_time toy_eph ?nb ?locs 4128 5 =
      Inr ([0, 1], [local_sunset toy_eph ?nb ?locs ?grid 0,
                    local_sunset toy_eph ?nb ?locs ?grid 1])" .
  from swapped have "tz (local_sunset toy_eph ?nb ?locs ?grid 0) = tzs ?nb ! 0" by blast
  then have zone: "tz (local_sunset toy_eph ?nb ?locs ?grid 0) = eastern"
    by (simp add: toy_nb_def)
  have own: "toy_zone_of (?locs ! 0) = utc"
    by (simp add: toy_zone_of_def greenwich_def)
  have "zone eastern \<noteq> zone utc" by (simp add: eastern_def utc_def)
  then have ne: "eastern \<noteq> utc" by auto
  have h: "(1::nat) < length [princeton, greenwich]" by simp
  have w: "winner toy_eph [princeton, greenwich] ?grid 1 = Inr 1"
    by (simp add: winner_alone[of _ "_ # _ # _"] winner_greenwich)
  have l: "length (tzs (toy_nb [eastern])) \<le> 1" by (simp add: toy_nb_def)
  from timezone_comes_from_table_index[OF time_grid_5, of toy_eph "toy_nb [eastern]"
      "[princeton, greenwich]" toy_zone_of] h w l
  have short: "sunset_time toy_eph (toy_nb [eastern]) [princeton, greenwich] 4128 5 =
      Inl IndexError"
    by blast
  from time_grid_5 ret zone own ne h w l short show ?thesis by blast
qed

end
